theory Spec2Isabelle
  imports Main "HOL-Library.Word" "HOL-Library.AList"
begin

unbundle bit_operations_syntax

section \<open>Structured values\<close>

text \<open>
  A \<^verbatim>\<open>sentry_value_t\<close> is a handle.  Null, booleans and 32-bit integers are immediate;
  strings, levels and addresses are immutable, so they are kept in the handle as well;
  objects and lists are mutable and shared by reference, so they live in a store of
  cells and the handle holds the cell's address.  The value API itself
  (\<^verbatim>\<open>sentry_value.c\<close>) is not among the source files; the operations below are the
  part of it that the two backends call.
\<close>

datatype sentry_level_t =
    SENTRY_LEVEL_DEBUG
  | SENTRY_LEVEL_INFO
  | SENTRY_LEVEL_WARNING
  | SENTRY_LEVEL_ERROR
  | SENTRY_LEVEL_FATAL

datatype sentry_value =
    VNull
  | VBool bool
  | VInt32 "32 word"
  | VString string
  | VLevel sentry_level_t
  | VAddr "64 word"
  | VRef nat


text \<open>
  Objects and lists are the two kinds of cell.  An object keeps its keys in insertion
  order.
\<close>

datatype cell =
    CList "sentry_value list"
  | CObject "(string \<times> sentry_value) list"

text \<open>What a value looks like when it is read out of the store, to a given depth.\<close>

datatype tree =
    TNull
  | TBool bool
  | TInt32 "32 word"
  | TString string
  | TLevel sentry_level_t
  | TAddr "64 word"
  | TList "tree list"
  | TObject "(string \<times> tree) list"
  | TDangling

fun read_value :: "nat \<Rightarrow> (nat \<Rightarrow> cell option) \<Rightarrow> sentry_value \<Rightarrow> tree" where
  "read_value d cs VNull = TNull"
| "read_value d cs (VBool b) = TBool b"
| "read_value d cs (VInt32 i) = TInt32 i"
| "read_value d cs (VString x) = TString x"
| "read_value d cs (VLevel l) = TLevel l"
| "read_value d cs (VAddr a) = TAddr a"
| "read_value 0 cs (VRef a) = TDangling"
| "read_value (Suc d) cs (VRef a) =
     (case cs a of
        None \<Rightarrow> TDangling
      | Some (CList xs) \<Rightarrow> TList (map (read_value d cs) xs)
      | Some (CObject kvs) \<Rightarrow> TObject (map (\<lambda>(k, v). (k, read_value d cs v)) kvs))"

section \<open>The process state shared by both platforms\<close>

datatype sentry_session_status_t =
    SENTRY_SESSION_STATUS_OK
  | SENTRY_SESSION_STATUS_CRASHED
  | SENTRY_SESSION_STATUS_ABNORMAL
  | SENTRY_SESSION_STATUS_EXITED

text \<open>
  A transport is either the disk transport that \<^verbatim>\<open>sentry__enforce_disk_transport\<close>
  installs or some other transport, named by its address.
\<close>

datatype sentry_transport = Disk_transport | Transport nat

text \<open>
  The values of a handler pointer in a \<^verbatim>\<open>struct sigaction\<close>: the two dispositions
  \<^verbatim>\<open>SIG_DFL\<close> and \<^verbatim>\<open>SIG_IGN\<close>, the backend's own \<^verbatim>\<open>handle_signal\<close>, or any other
  function, named by its address.  All-zero memory reads as \<^verbatim>\<open>SIG_DFL\<close>.
\<close>

datatype sighandler = SIG_DFL | SIG_IGN | Handle_signal | Fn nat

text \<open>
  \<^verbatim>\<open>struct sigaction\<close>.  The source reads the handler through two names, \<^verbatim>\<open>sa_handler\<close>
  and \<^verbatim>\<open>sa_sigaction\<close>, which share storage on the platforms of the backend: the record
  has both, and an assignment to one of them in the source is an assignment to both
  here.  The mask is never read by the backend and is left out.
\<close>

record sigaction =
  sa_handler :: sighandler
  sa_sigaction :: sighandler
  sa_flags :: "32 word"

record stack_t =
  ss_sp :: "nat option"
  ss_size :: nat
  ss_flags :: "32 word"

text \<open>
  The calls that leave the backend, in the order they are made: into the rest of the
  SDK and into the operating system.  The theorems about order and about which handler
  gets control are statements about this log.
\<close>

datatype call =
    Page_allocator_enable
  | Enter_signal_handler
  | Leave_signal_handler
  | Write_crash_marker
  | Enforce_disk_transport
  | End_current_session sentry_session_status_t
  | Unwind_stack nat
  | Capture_event sentry_value
  | Transport_dump_queue sentry_transport nat
  | Transport_free "sentry_transport option"
  | Sigaction "32 word" sigaction
  | Sigaltstack stack_t
  | Sentry_free "nat option"
  | Raise "32 word"
  | Call_sigaction sighandler "32 word" nat nat
  | Call_handler sighandler "32 word"

text \<open>
  The state both platform variants of the in-process backend work on: the store of the
  structured values, the two fields of the options that the capture pipeline reads
  (\<^verbatim>\<open>opts->transport\<close>, \<open>None\<close> for \<^verbatim>\<open>NULL\<close>, and \<^verbatim>\<open>opts->run\<close>) and the log of calls.
\<close>

record sdk =
  cells :: "nat \<Rightarrow> cell option"
  next_cell :: nat
  options_transport :: "sentry_transport option"
  options_run :: nat
  calls :: "call list"

definition log_call :: "call \<Rightarrow> 'a sdk_scheme \<Rightarrow> 'a sdk_scheme" where
  "log_call c s = s\<lparr>calls := calls s @ [c]\<rparr>"

subsection \<open>The value API\<close>

text \<open>
  Modelled from the spec: the value API is not among the source files ("structured
  value construction ... consumed as an opaque API").  A constructor of an object or a
  list takes the next free cell; \<^verbatim>\<open>sentry_value_set_by_key\<close> replaces the value of a key
  that is present and adds the key at the end otherwise; \<^verbatim>\<open>sentry_value_append\<close> adds at
  the end of a list; both do nothing on a value of the wrong kind.  Allocation is taken
  to succeed.  \<^verbatim>\<open>sentry_value_new_event\<close> makes an object that already holds the default
  properties of an event; these are the parameter \<open>dflt\<close>.
\<close>

definition new_cell :: "cell \<Rightarrow> 'a sdk_scheme \<Rightarrow> sentry_value \<times> 'a sdk_scheme" where
  "new_cell c s =
     (VRef (next_cell s),
      s\<lparr>cells := (cells s)(next_cell s \<mapsto> c), next_cell := Suc (next_cell s)\<rparr>)"

definition sentry_value_new_object :: "'a sdk_scheme \<Rightarrow> sentry_value \<times> 'a sdk_scheme" where
  "sentry_value_new_object = new_cell (CObject [])"

definition sentry_value_new_list :: "'a sdk_scheme \<Rightarrow> sentry_value \<times> 'a sdk_scheme" where
  "sentry_value_new_list = new_cell (CList [])"

definition sentry__value_new_list_with_size ::
  "nat \<Rightarrow> 'a sdk_scheme \<Rightarrow> sentry_value \<times> 'a sdk_scheme" where
  "sentry__value_new_list_with_size n = new_cell (CList [])"

definition sentry_value_new_event ::
  "(string \<times> sentry_value) list \<Rightarrow> 'a sdk_scheme \<Rightarrow> sentry_value \<times> 'a sdk_scheme" where
  "sentry_value_new_event dflt = new_cell (CObject dflt)"

definition sentry_value_new_string :: "string \<Rightarrow> sentry_value" where
  "sentry_value_new_string x = VString x"

definition sentry_value_new_int32 :: "32 word \<Rightarrow> sentry_value" where
  "sentry_value_new_int32 i = VInt32 i"

definition sentry_value_new_bool :: "bool \<Rightarrow> sentry_value" where
  "sentry_value_new_bool b = VBool b"

definition sentry__value_new_level :: "sentry_level_t \<Rightarrow> sentry_value" where
  "sentry__value_new_level l = VLevel l"

definition sentry__value_new_addr :: "64 word \<Rightarrow> sentry_value" where
  "sentry__value_new_addr a = VAddr a"

definition sentry_value_set_by_key ::
  "sentry_value \<Rightarrow> string \<Rightarrow> sentry_value \<Rightarrow> 'a sdk_scheme \<Rightarrow> 'a sdk_scheme" where
  "sentry_value_set_by_key v k x s =
     (case v of
        VRef a \<Rightarrow>
          (case cells s a of
             Some (CObject kvs) \<Rightarrow> s\<lparr>cells := (cells s)(a \<mapsto> CObject (AList.update k x kvs))\<rparr>
           | _ \<Rightarrow> s)
      | _ \<Rightarrow> s)"

definition sentry_value_append :: "sentry_value \<Rightarrow> sentry_value \<Rightarrow> 'a sdk_scheme \<Rightarrow> 'a sdk_scheme" where
  "sentry_value_append v x s =
     (case v of
        VRef a \<Rightarrow>
          (case cells s a of
             Some (CList xs) \<Rightarrow> s\<lparr>cells := (cells s)(a \<mapsto> CList (xs @ [x]))\<rparr>
           | _ \<Rightarrow> s)
      | _ \<Rightarrow> s)"

text \<open>The two readers the theorems use to walk into an event.\<close>

definition sentry_value_get_by_key ::
  "(nat \<Rightarrow> cell option) \<Rightarrow> sentry_value \<Rightarrow> string \<Rightarrow> sentry_value" where
  "sentry_value_get_by_key cs v k =
     (case v of
        VRef a \<Rightarrow>
          (case cs a of
             Some (CObject kvs) \<Rightarrow> (case map_of kvs k of Some x \<Rightarrow> x | None \<Rightarrow> VNull)
           | _ \<Rightarrow> VNull)
      | _ \<Rightarrow> VNull)"

definition sentry_value_items :: "(nat \<Rightarrow> cell option) \<Rightarrow> sentry_value \<Rightarrow> sentry_value list" where
  "sentry_value_items cs v =
     (case v of
        VRef a \<Rightarrow> (case cs a of Some (CList xs) \<Rightarrow> xs | _ \<Rightarrow> [])
      | _ \<Rightarrow> [])"

subsection \<open>The collaborators of the capture pipeline\<close>

text \<open>
  Modelled from the spec: none of these is among the source files.  Each is a call into
  the rest of the SDK and is entered in the log; \<^verbatim>\<open>sentry__enforce_disk_transport\<close> also
  does what the spec says it does ("swap the active transport for the Disk Fallback
  Transport").
\<close>

definition sentry__page_allocator_enable :: "'a sdk_scheme \<Rightarrow> 'a sdk_scheme" where
  "sentry__page_allocator_enable = log_call Page_allocator_enable"

definition sentry__enter_signal_handler :: "'a sdk_scheme \<Rightarrow> 'a sdk_scheme" where
  "sentry__enter_signal_handler = log_call Enter_signal_handler"

definition sentry__leave_signal_handler :: "'a sdk_scheme \<Rightarrow> 'a sdk_scheme" where
  "sentry__leave_signal_handler = log_call Leave_signal_handler"

definition sentry__write_crash_marker :: "'a sdk_scheme \<Rightarrow> 'a sdk_scheme" where
  "sentry__write_crash_marker = log_call Write_crash_marker"

definition sentry__enforce_disk_transport :: "'a sdk_scheme \<Rightarrow> 'a sdk_scheme" where
  "sentry__enforce_disk_transport s =
     log_call Enforce_disk_transport (s\<lparr>options_transport := Some Disk_transport\<rparr>)"

definition sentry__end_current_session_with_status ::
  "sentry_session_status_t \<Rightarrow> 'a sdk_scheme \<Rightarrow> 'a sdk_scheme" where
  "sentry__end_current_session_with_status st = log_call (End_current_session st)"

definition sentry_capture_event :: "sentry_value \<Rightarrow> 'a sdk_scheme \<Rightarrow> 'a sdk_scheme" where
  "sentry_capture_event ev = log_call (Capture_event ev)"

definition sentry__transport_dump_queue ::
  "sentry_transport \<Rightarrow> nat \<Rightarrow> 'a sdk_scheme \<Rightarrow> 'a sdk_scheme" where
  "sentry__transport_dump_queue t r = log_call (Transport_dump_queue t r)"

section \<open>The in-process backend\<close>

subsection \<open>The signal table\<close>

text \<open>
  \<^verbatim>\<open>struct signal_slot\<close> (sentry_backend_inproc.c, lines 23-27 and 110-114).  The number
  is an \<^verbatim>\<open>int\<close> on POSIX and a \<^verbatim>\<open>DWORD\<close> on Windows: 32 bits in both.  The macro
  \<^verbatim>\<open>SIGNAL_DEF\<close> (lines 15-18) fills a slot with the number, the spelled-out name of the
  macro and the description.
\<close>

record signal_slot =
  signum :: "32 word"
  signame :: string
  sigdesc :: string

definition SIGNAL_DEF :: "32 word \<Rightarrow> string \<Rightarrow> string \<Rightarrow> signal_slot" where
  "SIGNAL_DEF sig name desc = \<lparr>signum = sig, signame = name, sigdesc = desc\<rparr>"

definition MAX_FRAMES :: nat where
  "MAX_FRAMES = 128"

text \<open>
  The constants of \<^verbatim>\<open><signal.h>\<close> that the POSIX part uses.  Their values differ from
  platform to platform and the header is not among the source files, so they are a
  parameter.  \<open>linux_consts\<close> are the values on Linux (x86 and ARM), used where a theorem
  is tried on a concrete input.
\<close>

record posix_consts =
  SIGILL :: "32 word"
  SIGTRAP :: "32 word"
  SIGABRT :: "32 word"
  SIGBUS :: "32 word"
  SIGFPE :: "32 word"
  SIGSEGV :: "32 word"
  SA_SIGINFO :: "32 word"
  SA_ONSTACK :: "32 word"
  SS_DISABLE :: "32 word"

definition linux_consts :: posix_consts where
  "linux_consts =
     \<lparr>SIGILL = 4, SIGTRAP = 5, SIGABRT = 6, SIGBUS = 7, SIGFPE = 8, SIGSEGV = 11,
      SA_SIGINFO = 4, SA_ONSTACK = 0x08000000, SS_DISABLE = 2\<rparr>"

definition SIGNAL_COUNT_unix :: nat where
  "SIGNAL_COUNT_unix = 6"

definition SIGNAL_STACK_SIZE :: nat where
  "SIGNAL_STACK_SIZE = 65536"

text \<open>\<^verbatim>\<open>SIGNAL_DEFINITIONS\<close> on POSIX (lines 36-43).\<close>

definition SIGNAL_DEFINITIONS_unix :: "posix_consts \<Rightarrow> signal_slot list" where
  "SIGNAL_DEFINITIONS_unix pc =
     [SIGNAL_DEF (SIGILL pc) ''SIGILL'' ''IllegalInstruction'',
      SIGNAL_DEF (SIGTRAP pc) ''SIGTRAP'' ''Trap'',
      SIGNAL_DEF (SIGABRT pc) ''SIGABRT'' ''Abort'',
      SIGNAL_DEF (SIGBUS pc) ''SIGBUS'' ''BusError'',
      SIGNAL_DEF (SIGFPE pc) ''SIGFPE'' ''FloatingPointException'',
      SIGNAL_DEF (SIGSEGV pc) ''SIGSEGV'' ''Segfault'']"

text \<open>
  The exception codes of \<^verbatim>\<open><winnt.h>\<close>, which are fixed by the Windows ABI, and the
  filter's return value \<^verbatim>\<open>EXCEPTION_CONTINUE_SEARCH\<close>.
\<close>

definition EXCEPTION_ACCESS_VIOLATION :: "32 word" where
  "EXCEPTION_ACCESS_VIOLATION = 0xC0000005"
definition EXCEPTION_ARRAY_BOUNDS_EXCEEDED :: "32 word" where
  "EXCEPTION_ARRAY_BOUNDS_EXCEEDED = 0xC000008C"
definition EXCEPTION_BREAKPOINT :: "32 word" where
  "EXCEPTION_BREAKPOINT = 0x80000003"
definition EXCEPTION_DATATYPE_MISALIGNMENT :: "32 word" where
  "EXCEPTION_DATATYPE_MISALIGNMENT = 0x80000002"
definition EXCEPTION_FLT_DENORMAL_OPERAND :: "32 word" where
  "EXCEPTION_FLT_DENORMAL_OPERAND = 0xC000008D"
definition EXCEPTION_FLT_DIVIDE_BY_ZERO :: "32 word" where
  "EXCEPTION_FLT_DIVIDE_BY_ZERO = 0xC000008E"
definition EXCEPTION_FLT_INEXACT_RESULT :: "32 word" where
  "EXCEPTION_FLT_INEXACT_RESULT = 0xC000008F"
definition EXCEPTION_FLT_INVALID_OPERATION :: "32 word" where
  "EXCEPTION_FLT_INVALID_OPERATION = 0xC0000090"
definition EXCEPTION_FLT_OVERFLOW :: "32 word" where
  "EXCEPTION_FLT_OVERFLOW = 0xC0000091"
definition EXCEPTION_FLT_STACK_CHECK :: "32 word" where
  "EXCEPTION_FLT_STACK_CHECK = 0xC0000092"
definition EXCEPTION_FLT_UNDERFLOW :: "32 word" where
  "EXCEPTION_FLT_UNDERFLOW = 0xC0000093"
definition EXCEPTION_ILLEGAL_INSTRUCTION :: "32 word" where
  "EXCEPTION_ILLEGAL_INSTRUCTION = 0xC000001D"
definition EXCEPTION_IN_PAGE_ERROR :: "32 word" where
  "EXCEPTION_IN_PAGE_ERROR = 0xC0000006"
definition EXCEPTION_INT_DIVIDE_BY_ZERO :: "32 word" where
  "EXCEPTION_INT_DIVIDE_BY_ZERO = 0xC0000094"
definition EXCEPTION_INT_OVERFLOW :: "32 word" where
  "EXCEPTION_INT_OVERFLOW = 0xC0000095"
definition EXCEPTION_INVALID_DISPOSITION :: "32 word" where
  "EXCEPTION_INVALID_DISPOSITION = 0xC0000026"
definition EXCEPTION_NONCONTINUABLE_EXCEPTION :: "32 word" where
  "EXCEPTION_NONCONTINUABLE_EXCEPTION = 0xC0000025"
definition EXCEPTION_PRIV_INSTRUCTION :: "32 word" where
  "EXCEPTION_PRIV_INSTRUCTION = 0xC0000096"
definition EXCEPTION_SINGLE_STEP :: "32 word" where
  "EXCEPTION_SINGLE_STEP = 0x80000004"
definition EXCEPTION_STACK_OVERFLOW :: "32 word" where
  "EXCEPTION_STACK_OVERFLOW = 0xC00000FD"

definition EXCEPTION_CONTINUE_SEARCH :: int where
  "EXCEPTION_CONTINUE_SEARCH = 0"

definition SIGNAL_COUNT_windows :: nat where
  "SIGNAL_COUNT_windows = 20"

text \<open>\<^verbatim>\<open>SIGNAL_DEFINITIONS\<close> on Windows (lines 120-141).\<close>

definition SIGNAL_DEFINITIONS_windows :: "signal_slot list" where
  "SIGNAL_DEFINITIONS_windows =
     [SIGNAL_DEF EXCEPTION_ACCESS_VIOLATION ''EXCEPTION_ACCESS_VIOLATION'' ''AccessViolation'',
      SIGNAL_DEF EXCEPTION_ARRAY_BOUNDS_EXCEEDED ''EXCEPTION_ARRAY_BOUNDS_EXCEEDED''
        ''ArrayBoundsExceeded'',
      SIGNAL_DEF EXCEPTION_BREAKPOINT ''EXCEPTION_BREAKPOINT'' ''BreakPoint'',
      SIGNAL_DEF EXCEPTION_DATATYPE_MISALIGNMENT ''EXCEPTION_DATATYPE_MISALIGNMENT''
        ''DatatypeMisalignment'',
      SIGNAL_DEF EXCEPTION_FLT_DENORMAL_OPERAND ''EXCEPTION_FLT_DENORMAL_OPERAND''
        ''FloatDenormalOperand'',
      SIGNAL_DEF EXCEPTION_FLT_DIVIDE_BY_ZERO ''EXCEPTION_FLT_DIVIDE_BY_ZERO''
        ''FloatDivideByZero'',
      SIGNAL_DEF EXCEPTION_FLT_INEXACT_RESULT ''EXCEPTION_FLT_INEXACT_RESULT''
        ''FloatInexactResult'',
      SIGNAL_DEF EXCEPTION_FLT_INVALID_OPERATION ''EXCEPTION_FLT_INVALID_OPERATION''
        ''FloatInvalidOperation'',
      SIGNAL_DEF EXCEPTION_FLT_OVERFLOW ''EXCEPTION_FLT_OVERFLOW'' ''FloatOverflow'',
      SIGNAL_DEF EXCEPTION_FLT_STACK_CHECK ''EXCEPTION_FLT_STACK_CHECK'' ''FloatStackCheck'',
      SIGNAL_DEF EXCEPTION_FLT_UNDERFLOW ''EXCEPTION_FLT_UNDERFLOW'' ''FloatUnderflow'',
      SIGNAL_DEF EXCEPTION_ILLEGAL_INSTRUCTION ''EXCEPTION_ILLEGAL_INSTRUCTION''
        ''IllegalInstruction'',
      SIGNAL_DEF EXCEPTION_IN_PAGE_ERROR ''EXCEPTION_IN_PAGE_ERROR'' ''InPageError'',
      SIGNAL_DEF EXCEPTION_INT_DIVIDE_BY_ZERO ''EXCEPTION_INT_DIVIDE_BY_ZERO''
        ''IntegerDivideByZero'',
      SIGNAL_DEF EXCEPTION_INT_OVERFLOW ''EXCEPTION_INT_OVERFLOW'' ''IntegerOverflow'',
      SIGNAL_DEF EXCEPTION_INVALID_DISPOSITION ''EXCEPTION_INVALID_DISPOSITION''
        ''InvalidDisposition'',
      SIGNAL_DEF EXCEPTION_NONCONTINUABLE_EXCEPTION ''EXCEPTION_NONCONTINUABLE_EXCEPTION''
        ''NonContinuableException'',
      SIGNAL_DEF EXCEPTION_PRIV_INSTRUCTION ''EXCEPTION_PRIV_INSTRUCTION''
        ''PrivilgedInstruction'',
      SIGNAL_DEF EXCEPTION_SINGLE_STEP ''EXCEPTION_SINGLE_STEP'' ''SingleStep'',
      SIGNAL_DEF EXCEPTION_STACK_OVERFLOW ''EXCEPTION_STACK_OVERFLOW'' ''StackOverflow'']"

subsection \<open>Building the crash event\<close>

text \<open>
  The loop of \<^verbatim>\<open>make_signal_event\<close> over the captured frames (lines 205-210): iteration
  \<open>i\<close> makes a frame object, stores the address \<^verbatim>\<open>backtrace[frame_count - i - 1]\<close> in it
  and appends it to the list.
\<close>

function make_signal_event_frames ::
  "64 word list \<Rightarrow> nat \<Rightarrow> sentry_value \<Rightarrow> nat \<Rightarrow> 'a sdk_scheme \<Rightarrow> 'a sdk_scheme" where
  "make_signal_event_frames backtrace frame_count frames i s =
     (if i < frame_count then
        (let (frame, s) = sentry_value_new_object s;
             s = sentry_value_set_by_key frame ''instruction_addr''
                   (sentry__value_new_addr (backtrace ! (frame_count - i - 1))) s;
             s = sentry_value_append frames frame s
         in make_signal_event_frames backtrace frame_count frames (Suc i) s)
      else s)"
  by pat_completeness auto
termination
  by (relation "measure (\<lambda>(backtrace, frame_count, frames, i, s). frame_count - i)") auto

declare make_signal_event_frames.simps [simp del]

text \<open>
  \<^verbatim>\<open>make_signal_event\<close> (lines 164-224).  The slot is \<open>None\<close> for the \<^verbatim>\<open>NULL\<close> pointer.
  \<open>unwind\<close> is the backtrace primitive \<^verbatim>\<open>sentry_unwind_stack_from_ucontext\<close>, which is not
  among the source files: given the context and the size of the buffer it yields the
  addresses it wrote, first written first; their number is \<^verbatim>\<open>frame_count\<close>.  The call is
  entered in the log.  The statements are in the order of the source: note that
  \<open>mechanism\<close> is put into \<open>exc\<close>, and \<open>values\<close> into \<open>exceptions\<close>, before they are filled.
\<close>

definition make_signal_event ::
  "(string \<times> sentry_value) list \<Rightarrow> ('u \<Rightarrow> nat \<Rightarrow> 64 word list) \<Rightarrow> signal_slot option \<Rightarrow> 'u \<Rightarrow>
   'a sdk_scheme \<Rightarrow> sentry_value \<times> 'a sdk_scheme" where
  "make_signal_event dflt unwind sig_slot uctx s =
     (let (event, s) = sentry_value_new_event dflt s;
          s = sentry_value_set_by_key event ''level''
                (sentry__value_new_level SENTRY_LEVEL_FATAL) s;
          (exc, s) = sentry_value_new_object s;
          s = sentry_value_set_by_key exc ''type''
                (sentry_value_new_string
                   (case sig_slot of Some slot \<Rightarrow> signame slot | None \<Rightarrow> ''UNKNOWN_SIGNAL'')) s;
          s = sentry_value_set_by_key exc ''value''
                (sentry_value_new_string
                   (case sig_slot of Some slot \<Rightarrow> sigdesc slot | None \<Rightarrow> ''UnknownSignal'')) s;
          (mechanism, s) = sentry_value_new_object s;
          s = sentry_value_set_by_key exc ''mechanism'' mechanism s;
          (mechanism_meta, s) = sentry_value_new_object s;
          (signal_meta, s) = sentry_value_new_object s;
          s = (case sig_slot of
                 Some slot \<Rightarrow>
                   (let s = sentry_value_set_by_key signal_meta ''name''
                              (sentry_value_new_string (signame slot)) s
                    in sentry_value_set_by_key signal_meta ''number''
                         (sentry_value_new_int32 (signum slot)) s)
               | None \<Rightarrow> s);
          s = sentry_value_set_by_key mechanism_meta ''signal'' signal_meta s;
          s = sentry_value_set_by_key mechanism ''type''
                (sentry_value_new_string ''signalhandler'') s;
          s = sentry_value_set_by_key mechanism ''synthetic'' (sentry_value_new_bool True) s;
          s = sentry_value_set_by_key mechanism ''handled'' (sentry_value_new_bool False) s;
          s = sentry_value_set_by_key mechanism ''meta'' mechanism_meta s;
          backtrace = unwind uctx MAX_FRAMES;
          s = log_call (Unwind_stack MAX_FRAMES) s;
          frame_count = length backtrace;
          (frames, s) = sentry__value_new_list_with_size frame_count s;
          s = make_signal_event_frames backtrace frame_count frames 0 s;
          (stacktrace, s) = sentry_value_new_object s;
          s = sentry_value_set_by_key stacktrace ''frames'' frames s;
          s = sentry_value_set_by_key exc ''stacktrace'' stacktrace s;
          (exceptions, s) = sentry_value_new_object s;
          (values, s) = sentry_value_new_list s;
          s = sentry_value_set_by_key exceptions ''values'' values s;
          s = sentry_value_append values exc s;
          s = sentry_value_set_by_key event ''exception'' exceptions s
      in (event, s))"

subsection \<open>The capture pipeline\<close>

text \<open>
  The loop at the head of \<^verbatim>\<open>handle_ucontext\<close> (lines 229-241): every slot whose number
  equals the code overwrites \<^verbatim>\<open>sig_slot\<close>, so the last match stays.
\<close>

function find_sig_slot ::
  "signal_slot list \<Rightarrow> nat \<Rightarrow> 32 word \<Rightarrow> nat \<Rightarrow> signal_slot option \<Rightarrow> signal_slot option" where
  "find_sig_slot defs count code i sig_slot =
     (if i < count then
        find_sig_slot defs count code (Suc i)
          (if signum (defs ! i) = code then Some (defs ! i) else sig_slot)
      else sig_slot)"
  by pat_completeness auto
termination
  by (relation "measure (\<lambda>(defs, count, code, i, sig_slot). count - i)") auto

declare find_sig_slot.simps [simp del]

text \<open>
  The part of \<^verbatim>\<open>handle_ucontext\<close> that both platforms compile (lines 253-272): the crash
  marker, the transport swap (the old transport is read before it), the session, the
  event, and the dump of the old transport's queue if there was one.
\<close>

definition handle_ucontext_capture ::
  "(string \<times> sentry_value) list \<Rightarrow> ('u \<Rightarrow> nat \<Rightarrow> 64 word list) \<Rightarrow> signal_slot option \<Rightarrow> 'u \<Rightarrow>
   'a sdk_scheme \<Rightarrow> 'a sdk_scheme" where
  "handle_ucontext_capture dflt unwind sig_slot uctx s =
     (let s = sentry__write_crash_marker s;
          transport = options_transport s;
          s = sentry__enforce_disk_transport s;
          s = sentry__end_current_session_with_status SENTRY_SESSION_STATUS_CRASHED s;
          (event, s) = make_signal_event dflt unwind sig_slot uctx s;
          s = sentry_capture_event event s
      in case transport of
           None \<Rightarrow> s
         | Some t \<Rightarrow> sentry__transport_dump_queue t (options_run s) s)"

subsection \<open>POSIX\<close>

text \<open>
  The POSIX process: the state of the SDK, the kernel's table of signal dispositions,
  the set of signal numbers that \<^verbatim>\<open>sigaction\<close> accepts, and the three globals of the
  backend (lines 32-34).  \<^verbatim>\<open>g_previous_handlers\<close> is an array of \<^verbatim>\<open>SIGNAL_COUNT\<close> entries;
  only the indices below that are ever used.
\<close>

record unix_process = sdk +
  sigtable :: "32 word \<Rightarrow> sigaction"
  sig_valid :: "32 word \<Rightarrow> bool"
  g_sigaction :: sigaction
  g_previous_handlers :: "nat \<Rightarrow> sigaction"
  g_signal_stack :: stack_t

text \<open>\<^verbatim>\<open>sentry_ucontext_t\<close> on POSIX; the two pointers are kept as addresses.\<close>

record unix_ucontext =
  uc_signum :: "32 word"
  uc_siginfo :: nat
  uc_user_context :: nat

text \<open>
  \<^verbatim>\<open>sigaction(2)\<close>, in the two ways the backend calls it.  With a new action and no old
  one it installs the action; with no new action it reads the installed one.  Either
  returns -1 and does nothing for a signal number the kernel does not accept.
\<close>

definition sigaction_set :: "32 word \<Rightarrow> sigaction \<Rightarrow> unix_process \<Rightarrow> int \<times> unix_process" where
  "sigaction_set sig act s =
     (let s = log_call (Sigaction sig act) s
      in if sig_valid s sig then (0, s\<lparr>sigtable := (sigtable s)(sig := act)\<rparr>) else (-1, s))"

definition sigaction_get :: "32 word \<Rightarrow> unix_process \<Rightarrow> int \<times> sigaction option" where
  "sigaction_get sig s = (if sig_valid s sig then (0, Some (sigtable s sig)) else (-1, None))"

text \<open>\<^verbatim>\<open>reset_signal_handlers\<close> (lines 47-53).\<close>

function reset_signal_handlers_from :: "posix_consts \<Rightarrow> nat \<Rightarrow> unix_process \<Rightarrow> unix_process" where
  "reset_signal_handlers_from pc i s =
     (if i < SIGNAL_COUNT_unix then
        reset_signal_handlers_from pc (Suc i)
          (snd (sigaction_set (signum (SIGNAL_DEFINITIONS_unix pc ! i))
                  (g_previous_handlers s i) s))
      else s)"
  by pat_completeness auto
termination
  by (relation "measure (\<lambda>(pc, i, s). SIGNAL_COUNT_unix - i)") auto

declare reset_signal_handlers_from.simps [simp del]

definition reset_signal_handlers :: "posix_consts \<Rightarrow> unix_process \<Rightarrow> unix_process" where
  "reset_signal_handlers pc s = reset_signal_handlers_from pc 0 s"

text \<open>
  \<^verbatim>\<open>invoke_signal_handler\<close> (lines 55-72).  \<^verbatim>\<open>raise\<close> and the call of a recorded handler
  are entered in the log; what the handler then does is outside the backend.
\<close>

function invoke_signal_handler_from ::
  "posix_consts \<Rightarrow> 32 word \<Rightarrow> nat \<Rightarrow> nat \<Rightarrow> nat \<Rightarrow> unix_process \<Rightarrow> unix_process" where
  "invoke_signal_handler_from pc sig info user_context i s =
     (if i < SIGNAL_COUNT_unix then
        invoke_signal_handler_from pc sig info user_context (Suc i)
          (if signum (SIGNAL_DEFINITIONS_unix pc ! i) = sig then
             (let handler = g_previous_handlers s i
              in if sa_handler handler = SIG_DFL then log_call (Raise sig) s
                 else if sa_flags handler AND SA_SIGINFO pc \<noteq> 0 then
                   log_call (Call_sigaction (sa_sigaction handler) sig info user_context) s
                 else if sa_handler handler \<noteq> SIG_IGN then
                   log_call (Call_handler (sa_handler handler) sig) s
                 else s)
           else s)
      else s)"
  by pat_completeness auto
termination
  by (relation "measure (\<lambda>(pc, sig, info, user_context, i, s). SIGNAL_COUNT_unix - i)") auto

declare invoke_signal_handler_from.simps [simp del]

definition invoke_signal_handler ::
  "posix_consts \<Rightarrow> 32 word \<Rightarrow> nat \<Rightarrow> nat \<Rightarrow> unix_process \<Rightarrow> unix_process" where
  "invoke_signal_handler pc sig info user_context s =
     invoke_signal_handler_from pc sig info user_context 0 s"

text \<open>
  \<^verbatim>\<open>startup_inproc_backend\<close> on POSIX (lines 74-99).  \<open>mem\<close> is what \<^verbatim>\<open>sentry_malloc\<close>
  returned.  The assignment to \<^verbatim>\<open>g_sigaction.sa_sigaction\<close> (line 83) writes the storage
  that \<^verbatim>\<open>sa_handler\<close> shares with it, so both fields read \<^verbatim>\<open>handle_signal\<close> afterwards.
  The first loop records the installed actions and leaves the function at the first
  failure; the second installs \<^verbatim>\<open>g_sigaction\<close> for every slot.
\<close>

function startup_record_from :: "posix_consts \<Rightarrow> nat \<Rightarrow> unix_process \<Rightarrow> bool \<times> unix_process" where
  "startup_record_from pc i s =
     (if i < SIGNAL_COUNT_unix then
        (case sigaction_get (signum (SIGNAL_DEFINITIONS_unix pc ! i)) s of
           (rv, Some old) \<Rightarrow>
             startup_record_from pc (Suc i)
               (s\<lparr>g_previous_handlers := (g_previous_handlers s)(i := old)\<rparr>)
         | (rv, None) \<Rightarrow> (False, s))
      else (True, s))"
  by pat_completeness auto
termination
  by (relation "measure (\<lambda>(pc, i, s). SIGNAL_COUNT_unix - i)") auto

declare startup_record_from.simps [simp del]

function startup_install_from :: "posix_consts \<Rightarrow> nat \<Rightarrow> unix_process \<Rightarrow> unix_process" where
  "startup_install_from pc i s =
     (if i < SIGNAL_COUNT_unix then
        startup_install_from pc (Suc i)
          (snd (sigaction_set (signum (SIGNAL_DEFINITIONS_unix pc ! i)) (g_sigaction s) s))
      else s)"
  by pat_completeness auto
termination
  by (relation "measure (\<lambda>(pc, i, s). SIGNAL_COUNT_unix - i)") auto

declare startup_install_from.simps [simp del]

definition zero_sigaction :: sigaction where
  "zero_sigaction = \<lparr>sa_handler = SIG_DFL, sa_sigaction = SIG_DFL, sa_flags = 0\<rparr>"

definition startup_inproc_backend_unix ::
  "posix_consts \<Rightarrow> nat option \<Rightarrow> unix_process \<Rightarrow> unix_process" where
  "startup_inproc_backend_unix pc mem s =
     (let s = s\<lparr>g_signal_stack := \<lparr>ss_sp = mem, ss_size = SIGNAL_STACK_SIZE, ss_flags = 0\<rparr>\<rparr>;
          s = s\<lparr>g_previous_handlers := (\<lambda>i. zero_sigaction)\<rparr>;
          s = s\<lparr>g_sigaction := (g_sigaction s)
                 \<lparr>sa_handler := Handle_signal, sa_sigaction := Handle_signal,
                  sa_flags := SA_SIGINFO pc OR SA_ONSTACK pc\<rparr>\<rparr>;
          s = log_call (Sigaltstack (g_signal_stack s)) s;
          (ok, s) = startup_record_from pc 0 s
      in if ok then startup_install_from pc 0 s else s)"

text \<open>
  \<^verbatim>\<open>shutdown_inproc_backend\<close> on POSIX (lines 101-107): it disables the alternate stack
  and frees it, and that is all it does.
\<close>

definition shutdown_inproc_backend_unix :: "posix_consts \<Rightarrow> unix_process \<Rightarrow> unix_process" where
  "shutdown_inproc_backend_unix pc s =
     (let s = s\<lparr>g_signal_stack := (g_signal_stack s)\<lparr>ss_flags := SS_DISABLE pc\<rparr>\<rparr>;
          s = log_call (Sigaltstack (g_signal_stack s)) s
      in log_call (Sentry_free (ss_sp (g_signal_stack s))) s)"

text \<open>\<^verbatim>\<open>handle_ucontext\<close> as compiled on POSIX (lines 226-284).\<close>

definition handle_ucontext_unix ::
  "posix_consts \<Rightarrow> (string \<times> sentry_value) list \<Rightarrow> (unix_ucontext \<Rightarrow> nat \<Rightarrow> 64 word list) \<Rightarrow>
   unix_ucontext \<Rightarrow> unix_process \<Rightarrow> unix_process" where
  "handle_ucontext_unix pc dflt unwind uctx s =
     (let sig_slot =
            find_sig_slot (SIGNAL_DEFINITIONS_unix pc) SIGNAL_COUNT_unix (uc_signum uctx) 0 None;
          s = sentry__page_allocator_enable s;
          s = sentry__enter_signal_handler s;
          s = handle_ucontext_capture dflt unwind sig_slot uctx s;
          s = reset_signal_handlers pc s;
          s = sentry__leave_signal_handler s
      in invoke_signal_handler pc (uc_signum uctx) (uc_siginfo uctx) (uc_user_context uctx) s)"

text \<open>\<^verbatim>\<open>handle_signal\<close> (lines 287-295) and \<^verbatim>\<open>handle_except\<close> (lines 314-318).\<close>

definition handle_signal ::
  "posix_consts \<Rightarrow> (string \<times> sentry_value) list \<Rightarrow> (unix_ucontext \<Rightarrow> nat \<Rightarrow> 64 word list) \<Rightarrow>
   32 word \<Rightarrow> nat \<Rightarrow> nat \<Rightarrow> unix_process \<Rightarrow> unix_process" where
  "handle_signal pc dflt unwind sig info user_context s =
     handle_ucontext_unix pc dflt unwind
       \<lparr>uc_signum = sig, uc_siginfo = info, uc_user_context = user_context\<rparr> s"

definition handle_except_unix ::
  "posix_consts \<Rightarrow> (string \<times> sentry_value) list \<Rightarrow> (unix_ucontext \<Rightarrow> nat \<Rightarrow> 64 word list) \<Rightarrow>
   unix_ucontext \<Rightarrow> unix_process \<Rightarrow> unix_process" where
  "handle_except_unix pc dflt unwind uctx s = handle_ucontext_unix pc dflt unwind uctx s"

subsection \<open>Windows\<close>

text \<open>
  The values of the top-level exception filter: none, the in-process backend's
  \<^verbatim>\<open>handle_exception\<close>, the crashpad backend's \<^verbatim>\<open>sentry__crashpad_handler\<close>, or any other
  function, named by its address.
\<close>

datatype exception_filter = Null_filter | Handle_exception | Crashpad_handler | Filter nat

text \<open>
  The Windows process: the state of the SDK, the installed top-level filter and the
  global \<^verbatim>\<open>g_previous_handler\<close> (line 118).
\<close>

record windows_process = sdk +
  top_level_filter :: exception_filter
  g_previous_handler :: exception_filter

record exception_record =
  ExceptionCode :: "32 word"

record exception_pointers =
  ExceptionRecord :: exception_record
  ContextRecord :: nat

record windows_ucontext =
  exception_ptrs :: exception_pointers

text \<open>\<^verbatim>\<open>SetUnhandledExceptionFilter\<close>: installs the filter and returns the one it replaces.\<close>

definition SetUnhandledExceptionFilter ::
  "exception_filter \<Rightarrow> 'a windows_process_scheme \<Rightarrow>
   exception_filter \<times> 'a windows_process_scheme" where
  "SetUnhandledExceptionFilter f s = (top_level_filter s, s\<lparr>top_level_filter := f\<rparr>)"

text \<open>
  \<^verbatim>\<open>startup_inproc_backend\<close> and \<^verbatim>\<open>shutdown_inproc_backend\<close> on Windows (lines 145-161).
  \<^verbatim>\<open>SetErrorMode\<close> does not touch the filter and is left out.
\<close>

definition startup_inproc_backend_windows :: "windows_process \<Rightarrow> windows_process" where
  "startup_inproc_backend_windows s =
     (let (previous, s) = SetUnhandledExceptionFilter Handle_exception s
      in s\<lparr>g_previous_handler := previous\<rparr>)"

definition shutdown_inproc_backend_windows :: "windows_process \<Rightarrow> windows_process" where
  "shutdown_inproc_backend_windows s =
     (let (current_handler, s) = SetUnhandledExceptionFilter (g_previous_handler s) s
      in if current_handler \<noteq> Handle_exception
         then snd (SetUnhandledExceptionFilter current_handler s)
         else s)"

text \<open>\<^verbatim>\<open>handle_ucontext\<close> as compiled on Windows (lines 226-284).\<close>

definition handle_ucontext_windows ::
  "(string \<times> sentry_value) list \<Rightarrow> (windows_ucontext \<Rightarrow> nat \<Rightarrow> 64 word list) \<Rightarrow>
   windows_ucontext \<Rightarrow> windows_process \<Rightarrow> windows_process" where
  "handle_ucontext_windows dflt unwind uctx s =
     (let sig_slot =
            find_sig_slot SIGNAL_DEFINITIONS_windows SIGNAL_COUNT_windows
              (ExceptionCode (ExceptionRecord (exception_ptrs uctx))) 0 None
      in handle_ucontext_capture dflt unwind sig_slot uctx s)"

text \<open>\<^verbatim>\<open>handle_exception\<close> (lines 297-311): the filter's return value and the new state.\<close>

definition handle_exception ::
  "(string \<times> sentry_value) list \<Rightarrow> (windows_ucontext \<Rightarrow> nat \<Rightarrow> 64 word list) \<Rightarrow>
   exception_pointers \<Rightarrow> windows_process \<Rightarrow> int \<times> windows_process" where
  "handle_exception dflt unwind ExceptionInfo s =
     (if ExceptionCode (ExceptionRecord ExceptionInfo) = EXCEPTION_BREAKPOINT
         \<or> ExceptionCode (ExceptionRecord ExceptionInfo) = EXCEPTION_SINGLE_STEP
      then (EXCEPTION_CONTINUE_SEARCH, s)
      else
        (let uctx = \<lparr>exception_ptrs = ExceptionInfo\<rparr>;
             s = handle_ucontext_windows dflt unwind uctx s
         in (EXCEPTION_CONTINUE_SEARCH, s)))"

section \<open>The crashpad backend: the breadcrumb ring\<close>

text \<open>
  \<^verbatim>\<open>crashpad_state_t\<close> (sentry_backend_crashpad.cpp, lines 44-50).  A path pointer is
  \<open>None\<close> when it is \<^verbatim>\<open>NULL\<close>: \<^verbatim>\<open>sentry__backend_new\<close> clears the whole struct and only a
  startup that gets past the handler-path check sets the three paths.  The counter is a
  \<^verbatim>\<open>size_t\<close>, taken as 64 bits wide.
\<close>

record crashpad_state_t =
  db :: "nat option"
  event_path :: "string option"
  breadcrumb1_path :: "string option"
  breadcrumb2_path :: "string option"
  num_breadcrumbs :: "64 word"

text \<open>
  What the filesystem helpers were asked to do, in call order.  The last field is the
  status the helper returned (0 for success).
\<close>

datatype io_op =
    WriteBuffer string string int
  | AppendBuffer string string int

text \<open>
  The part of the process that \<^verbatim>\<open>add_breadcrumb\<close> touches: the backend's state blob,
  the files of the run directory, the reference counts of the structured values and the
  log of filesystem calls.  A file is kept as the sequence of buffers written to it; its
  bytes are their concatenation, one serialized record per buffer.
\<close>

record crashpad_world =
  data :: crashpad_state_t
  files :: "string \<Rightarrow> string list"
  refcount :: "sentry_value \<Rightarrow> nat"
  io_log :: "io_op list"

text \<open>
  Modelled from the spec: \<^verbatim>\<open>sentry_value_decref\<close> is not among the source files; it
  releases one reference ("the caller's reference is consumed").  Freeing at zero is not
  modelled.
\<close>

definition sentry_value_decref :: "sentry_value \<Rightarrow> crashpad_world \<Rightarrow> crashpad_world" where
  "sentry_value_decref v w = w\<lparr>refcount := (refcount w)(v := refcount w v - 1)\<rparr>"

text \<open>
  Modelled from the spec: the path helpers \<^verbatim>\<open>sentry__path_write_buffer\<close> and
  \<^verbatim>\<open>sentry__path_append_buffer\<close> are not among the source files ("write/append-buffer on
  a path").  The status \<open>rv\<close> they return is an input of the model.  With status 0 the
  file is replaced by the buffer, respectively extended by it.  What a failed call
  leaves on disk is not known; the model leaves the file as it was, and no theorem below
  depends on that choice.
\<close>

definition sentry__path_write_buffer ::
  "string \<Rightarrow> string \<Rightarrow> int \<Rightarrow> crashpad_world \<Rightarrow> crashpad_world" where
  "sentry__path_write_buffer path buf rv w =
     (let w = w\<lparr>io_log := io_log w @ [WriteBuffer path buf rv]\<rparr>
      in if rv = 0 then w\<lparr>files := (files w)(path := [buf])\<rparr> else w)"

definition sentry__path_append_buffer ::
  "string \<Rightarrow> string \<Rightarrow> int \<Rightarrow> crashpad_world \<Rightarrow> crashpad_world" where
  "sentry__path_append_buffer path buf rv w =
     (let w = w\<lparr>io_log := io_log w @ [AppendBuffer path buf rv]\<rparr>
      in if rv = 0 then w\<lparr>files := (files w)(path := files w path @ [buf])\<rparr> else w)"

text \<open>
  \<^verbatim>\<open>sentry__crashpad_backend_add_breadcrumb\<close> (sentry_backend_crashpad.cpp, lines
  269-302).  \<open>bmax\<close> is the macro \<^verbatim>\<open>SENTRY_BREADCRUMBS_MAX\<close>, whose definition is not among
  the source files: it is a parameter.  It is an \<^verbatim>\<open>int\<close> constant, so the theorems that
  depend on the schedule assume \<open>0 < bmax\<close> (the C code divides by it) and
  \<open>2 * bmax < 2 ^ 31\<close> (the C code doubles it as an \<^verbatim>\<open>int\<close>).  Both operands of \<^verbatim>\<open>%\<close> and
  \<^verbatim>\<open><\<close> are converted to \<^verbatim>\<open>size_t\<close>, hence the word arithmetic.

  The outcome of the two calls that can fail is an input: \<open>mpack\<close> is what
  \<^verbatim>\<open>sentry_value_to_msgpack\<close> returned (\<open>None\<close> for \<^verbatim>\<open>NULL\<close>) and \<open>rv\<close> is the status of
  the write or append.  The debug log line at the end has no effect on the state.
\<close>

definition sentry__crashpad_backend_add_breadcrumb ::
  "nat \<Rightarrow> sentry_value \<Rightarrow> string option \<Rightarrow> int \<Rightarrow> crashpad_world \<Rightarrow> crashpad_world" where
  "sentry__crashpad_backend_add_breadcrumb bmax breadcrumb mpack rv w =
     (let first_breadcrumb = (num_breadcrumbs (data w) mod word_of_nat bmax = 0);
          breadcrumb_file =
            (if num_breadcrumbs (data w) mod word_of_nat (bmax * 2) < word_of_nat bmax
             then breadcrumb1_path (data w)
             else breadcrumb2_path (data w));
          w = w\<lparr>data := (data w)\<lparr>num_breadcrumbs := num_breadcrumbs (data w) + 1\<rparr>\<rparr>
      in case breadcrumb_file of
           None \<Rightarrow> w
         | Some file \<Rightarrow>
             (let w = sentry_value_decref breadcrumb w
              in case mpack of
                   None \<Rightarrow> w
                 | Some buf \<Rightarrow>
                     if first_breadcrumb
                     then sentry__path_write_buffer file buf rv w
                     else sentry__path_append_buffer file buf rv w))"

text \<open>
  A sequence of calls.  Each call comes with the breadcrumb, the outcome of its
  serialization and the status of its file operation.
\<close>

type_synonym breadcrumb_call = "sentry_value \<times> string option \<times> int"

fun add_breadcrumbs :: "nat \<Rightarrow> breadcrumb_call list \<Rightarrow> crashpad_world \<Rightarrow> crashpad_world" where
  "add_breadcrumbs bmax [] w = w"
| "add_breadcrumbs bmax ((b, mpack, rv) # cs) w =
     add_breadcrumbs bmax cs (sentry__crashpad_backend_add_breadcrumb bmax b mpack rv w)"

text \<open>A call whose serialization and write both succeed.\<close>

definition ok_call :: "sentry_value \<Rightarrow> string \<Rightarrow> breadcrumb_call" where
  "ok_call b buf = (b, Some buf, 0)"

section \<open>The crashpad backend: the first-chance handler and shutdown\<close>

text \<open>
  \<^verbatim>\<open>sentry__crashpad_handler\<close> (sentry_backend_crashpad.cpp, lines 95-129), the hook that
  runs before crashpad writes its minidump.  \<open>have_options\<close> tells whether
  \<^verbatim>\<open>SENTRY_WITH_OPTIONS\<close> found options, \<open>unix\<close> tells whether the two signal-safety
  calls are compiled in.  In this file \<^verbatim>\<open>sentry__enforce_disk_transport\<close> returns a
  transport; \<open>returned\<close> stands for it.  No event is built here.
\<close>

definition sentry__crashpad_handler ::
  "bool \<Rightarrow> bool \<Rightarrow> sentry_transport \<Rightarrow> 'a sdk_scheme \<Rightarrow> 'a sdk_scheme" where
  "sentry__crashpad_handler unix have_options returned s =
     (let s = (if unix
               then sentry__enter_signal_handler (sentry__page_allocator_enable s)
               else s);
          s = (if have_options then
                 (let s = sentry__write_crash_marker s;
                      old = options_transport s;
                      s = sentry__enforce_disk_transport s;
                      transport = returned;
                      s = sentry__end_current_session_with_status
                            SENTRY_SESSION_STATUS_CRASHED s;
                      s = sentry__transport_dump_queue transport (options_run s) s;
                      s = log_call (Transport_free (options_transport s)) s
                  in s\<lparr>options_transport := Some transport\<rparr>)
               else s)
      in if unix then sentry__leave_signal_handler s else s)"

text \<open>
  The Windows part of \<^verbatim>\<open>sentry__crashpad_backend_shutdown\<close> (lines 260-266), on the
  crashpad backend's own \<^verbatim>\<open>g_previous_handler\<close> (line 41).
\<close>

definition sentry__crashpad_backend_shutdown_windows ::
  "'a windows_process_scheme \<Rightarrow> 'a windows_process_scheme" where
  "sentry__crashpad_backend_shutdown_windows s =
     (let (current_handler, s) = SetUnhandledExceptionFilter (g_previous_handler s) s
      in if current_handler \<noteq> Crashpad_handler
         then snd (SetUnhandledExceptionFilter current_handler s)
         else s)"

section \<open>Reading the log and the event\<close>

text \<open>The events handed to \<^verbatim>\<open>sentry_capture_event\<close>, in order.\<close>

fun captured_events :: "call list \<Rightarrow> sentry_value list" where
  "captured_events [] = []"
| "captured_events (Capture_event ev # cs) = ev # captured_events cs"
| "captured_events (c # cs) = captured_events cs"

text \<open>
  The steps of the capture pipeline among the calls: the marker, the transport swap, the
  session transition, the backtrace capture that the event is built from, the capture of
  the event, and the dump of a transport's queue.
\<close>

fun is_pipeline_step :: "call \<Rightarrow> bool" where
  "is_pipeline_step Write_crash_marker = True"
| "is_pipeline_step Enforce_disk_transport = True"
| "is_pipeline_step (End_current_session st) = True"
| "is_pipeline_step (Unwind_stack n) = True"
| "is_pipeline_step (Capture_event ev) = True"
| "is_pipeline_step (Transport_dump_queue t r) = True"
| "is_pipeline_step c = False"

definition pipeline_steps :: "call list \<Rightarrow> call list" where
  "pipeline_steps cs = filter is_pipeline_step cs"

text \<open>
  The entries of \<^verbatim>\<open>event.exception.values\<close> and the entries of the first one's
  \<^verbatim>\<open>stacktrace.frames\<close>, read out of the store.
\<close>

definition event_exception_values :: "(nat \<Rightarrow> cell option) \<Rightarrow> sentry_value \<Rightarrow> sentry_value list" where
  "event_exception_values cs event =
     sentry_value_items cs
       (sentry_value_get_by_key cs (sentry_value_get_by_key cs event ''exception'') ''values'')"

definition event_frames :: "(nat \<Rightarrow> cell option) \<Rightarrow> sentry_value \<Rightarrow> sentry_value list" where
  "event_frames cs event =
     (case event_exception_values cs event of
        [] \<Rightarrow> []
      | exc # rest \<Rightarrow>
          sentry_value_items cs
            (sentry_value_get_by_key cs (sentry_value_get_by_key cs exc ''stacktrace'') ''frames''))"

definition frame_tree :: "64 word \<Rightarrow> tree" where
  "frame_tree a = TObject [(''instruction_addr'', TAddr a)]"

section \<open>Two abbreviations used in the statements\<close>

text \<open>The state in which the event is built: after the marker, the swap and the session.\<close>

definition before_event :: "'a sdk_scheme \<Rightarrow> 'a sdk_scheme" where
  "before_event s =
     sentry__end_current_session_with_status SENTRY_SESSION_STATUS_CRASHED
       (sentry__enforce_disk_transport (sentry__write_crash_marker s))"

text \<open>What the backend does with one recorded handler (lines 61-69), as calls.\<close>

definition rechain :: "posix_consts \<Rightarrow> sigaction \<Rightarrow> 32 word \<Rightarrow> nat \<Rightarrow> nat \<Rightarrow> call list" where
  "rechain pc handler sig info uc =
     (if sa_handler handler = SIG_DFL then [Raise sig]
      else if sa_flags handler AND SA_SIGINFO pc \<noteq> 0
        then [Call_sigaction (sa_sigaction handler) sig info uc]
      else if sa_handler handler \<noteq> SIG_IGN then [Call_handler (sa_handler handler) sig]
      else [])"

section \<open>Concrete processes\<close>

text \<open>
  A crashpad backend as \<^verbatim>\<open>sentry__backend_new\<close> leaves it, which is also how a startup
  that returns at the handler-path check leaves it: every path is \<^verbatim>\<open>NULL\<close>.
\<close>

definition new_crashpad_world :: crashpad_world where
  "new_crashpad_world =
     \<lparr>data = \<lparr>db = None, event_path = None, breadcrumb1_path = None,
              breadcrumb2_path = None, num_breadcrumbs = 0\<rparr>,
      files = (\<lambda>p. []), refcount = (\<lambda>v. 1), io_log = []\<rparr>"

text \<open>A crashpad backend after a startup that set the three paths.\<close>

definition started_crashpad_world :: crashpad_world where
  "started_crashpad_world =
     \<lparr>data = \<lparr>db = Some 1, event_path = Some ''run/__sentry-event'',
              breadcrumb1_path = Some ''run/__sentry-breadcrumb1'',
              breadcrumb2_path = Some ''run/__sentry-breadcrumb2'', num_breadcrumbs = 0\<rparr>,
      files = (\<lambda>p. []), refcount = (\<lambda>v. 1), io_log = []\<rparr>"

text \<open>Two hundred breadcrumbs with their serialized records.\<close>

definition two_hundred_crumbs :: "(sentry_value \<times> string) list" where
  "two_hundred_crumbs = map (\<lambda>i. (VRef i, ''crumb'')) [0..<200]"

text \<open>
  A POSIX process before startup: an empty store, a network transport, every signal at
  its default disposition except \<^verbatim>\<open>SIGSEGV\<close>, for which the application has installed a
  one-argument handler at address 4096 (no \<^verbatim>\<open>SA_SIGINFO\<close>).  The kernel accepts the
  signals 1 to 64.
\<close>

definition app_segv_action :: sigaction where
  "app_segv_action = \<lparr>sa_handler = Fn 4096, sa_sigaction = Fn 4096, sa_flags = 0\<rparr>"

definition fresh_unix_process :: unix_process where
  "fresh_unix_process =
     \<lparr>cells = Map.empty, next_cell = 0, options_transport = Some (Transport 1),
      options_run = 0, calls = [],
      sigtable = (\<lambda>sig. zero_sigaction)(11 := app_segv_action),
      sig_valid = (\<lambda>sig. 1 \<le> sig \<and> sig \<le> 64),
      g_sigaction = zero_sigaction,
      g_previous_handlers = (\<lambda>i. zero_sigaction),
      g_signal_stack = \<lparr>ss_sp = None, ss_size = 0, ss_flags = 0\<rparr>\<rparr>"

text \<open>A Windows process before startup, with an application filter at address 4096.\<close>

definition fresh_windows_process :: windows_process where
  "fresh_windows_process =
     \<lparr>cells = Map.empty, next_cell = 0, options_transport = Some (Transport 1),
      options_run = 0, calls = [],
      top_level_filter = Filter 4096, g_previous_handler = Null_filter\<rparr>"

text \<open>A backtrace primitive that reports two addresses, and one that reports none.\<close>

definition two_frames :: "'u \<Rightarrow> nat \<Rightarrow> 64 word list" where
  "two_frames uctx n = [0x1000, 0x2000]"


text \<open>The POSIX process after startup, with a signal stack at address 65536.\<close>

definition started_unix_process :: unix_process where
  "started_unix_process =
     startup_inproc_backend_unix linux_consts (Some 65536) fresh_unix_process"

text \<open>The action that startup installs on Linux.\<close>

definition backend_action :: sigaction where
  "backend_action =
     \<lparr>sa_handler = Handle_signal, sa_sigaction = Handle_signal, sa_flags = 0x08000004\<rparr>"

text \<open>The Windows process after startup.\<close>

definition started_windows_process :: windows_process where
  "started_windows_process = startup_inproc_backend_windows fresh_windows_process"

section \<open>Properties of the breadcrumb ring\<close>

subsection \<open>The counter\<close>

lemma add_breadcrumb_counter:
  "num_breadcrumbs (data (sentry__crashpad_backend_add_breadcrumb bmax b mpack rv w)) =
     num_breadcrumbs (data w) + 1"
  by (simp add: sentry__crashpad_backend_add_breadcrumb_def Let_def sentry_value_decref_def
      sentry__path_write_buffer_def sentry__path_append_buffer_def split: option.splits)

lemma add_breadcrumbs_counter:
  "num_breadcrumbs (data (add_breadcrumbs bmax cs w)) =
     num_breadcrumbs (data w) + word_of_nat (length cs)"
  by (induction cs arbitrary: w) (auto simp: add_breadcrumb_counter)

text \<open>
  C7.  Every call of \<^verbatim>\<open>add_breadcrumb\<close> advances the counter by exactly one (in
  \<^verbatim>\<open>size_t\<close> arithmetic), whatever the breadcrumb, whether or not the target path is set,
  whether or not serialization succeeded and whatever status the file operation
  returned; so after any sequence of calls the counter, which alone drives the rotation
  schedule, is the starting counter plus the number of calls made.
\<close>

theorem add_breadcrumb_counter_unconditional:
  "num_breadcrumbs (data (sentry__crashpad_backend_add_breadcrumb bmax b mpack rv w)) =
     num_breadcrumbs (data w) + 1
   \<and> num_breadcrumbs (data (add_breadcrumbs bmax cs w)) =
     num_breadcrumbs (data w) + word_of_nat (length cs)"
proof
  show "num_breadcrumbs (data (sentry__crashpad_backend_add_breadcrumb bmax b mpack rv w)) =
          num_breadcrumbs (data w) + 1"
    by (rule add_breadcrumb_counter)
  show "num_breadcrumbs (data (add_breadcrumbs bmax cs w)) =
          num_breadcrumbs (data w) + word_of_nat (length cs)"
    by (rule add_breadcrumbs_counter)
qed

subsection \<open>The reference to the breadcrumb\<close>

lemma add_breadcrumb_decref_with_file:
  assumes "breadcrumb1_path (data w) = Some fa" and "breadcrumb2_path (data w) = Some fb"
  shows "refcount (sentry__crashpad_backend_add_breadcrumb bmax b mpack rv w) =
           (refcount w)(b := refcount w b - 1)"
  using assms
  by (simp add: sentry__crashpad_backend_add_breadcrumb_def Let_def sentry_value_decref_def
      sentry__path_write_buffer_def sentry__path_append_buffer_def split: option.splits)

text \<open>
  C8, at the input where the code departs from it.  On a backend whose breadcrumb paths
  are \<^verbatim>\<open>NULL\<close>, \<^verbatim>\<open>add_breadcrumb\<close> returns before \<^verbatim>\<open>sentry_value_decref\<close>: every reference
  count, that of the breadcrumb included, is what it was before the call, for every
  breadcrumb and whatever serialization and the file operation would have returned.
  (With both paths set the reference is released on every path, as
  \<open>add_breadcrumb_decref_with_file\<close> shows.)
\<close>

theorem add_breadcrumb_null_path_keeps_reference:
  "refcount (sentry__crashpad_backend_add_breadcrumb bmax b mpack rv new_crashpad_world) =
     refcount new_crashpad_world
   \<and> refcount new_crashpad_world b = 1"
  by (simp add: sentry__crashpad_backend_add_breadcrumb_def Let_def new_crashpad_world_def)

subsection \<open>The rotation schedule\<close>

lemma unat_of_nat_small:
  assumes "m < 2 ^ 31"
  shows "unat (word_of_nat m :: 64 word) = m"
proof -
  have "m < 2 ^ 64" using assms by (rule less_trans) simp
  then show ?thesis by (simp add: unat_of_nat)
qed

lemma first_breadcrumb_nat:
  assumes "bmax < 2 ^ 31"
  shows "((n :: 64 word) mod word_of_nat bmax = 0) = (unat n mod bmax = 0)"
proof -
  have "(n mod word_of_nat bmax = 0) = (unat (n mod word_of_nat bmax) = 0)"
    by (simp add: unat_eq_zero)
  also have "\<dots> = (unat n mod bmax = 0)"
    by (simp add: unat_mod_distrib unat_of_nat_small [OF assms])
  finally show ?thesis .
qed

lemma breadcrumb_file_nat:
  assumes "2 * bmax < 2 ^ 31"
  shows "((n :: 64 word) mod word_of_nat (bmax * 2) < word_of_nat bmax)
           = (unat n mod (2 * bmax) < bmax)"
proof -
  have b: "bmax < 2 ^ 31" using assms by simp
  have b2: "bmax * 2 < 2 ^ 31" using assms by (simp add: mult.commute)
  have "(n mod word_of_nat (bmax * 2) < (word_of_nat bmax :: 64 word))
          = (unat (n mod word_of_nat (bmax * 2)) < unat (word_of_nat bmax :: 64 word))"
    by (rule word_less_nat_alt)
  also have "unat (n mod word_of_nat (bmax * 2)) =
               unat n mod unat (word_of_nat (bmax * 2) :: 64 word)"
    by (rule unat_mod_distrib)
  also have "unat (word_of_nat (bmax * 2) :: 64 word) = 2 * bmax"
    using unat_of_nat_small [OF b2] by (simp only: mult.commute)
  also have "unat (word_of_nat bmax :: 64 word) = bmax"
    by (rule unat_of_nat_small [OF b])
  finally show ?thesis .
qed

lemma add_breadcrumb_paths:
  "breadcrumb1_path (data (sentry__crashpad_backend_add_breadcrumb bmax b mpack rv w)) =
     breadcrumb1_path (data w)
   \<and> breadcrumb2_path (data (sentry__crashpad_backend_add_breadcrumb bmax b mpack rv w)) =
     breadcrumb2_path (data w)"
  by (simp add: sentry__crashpad_backend_add_breadcrumb_def Let_def sentry_value_decref_def
      sentry__path_write_buffer_def sentry__path_append_buffer_def split: option.splits)

lemma add_breadcrumbs_paths:
  "breadcrumb1_path (data (add_breadcrumbs bmax cs w)) = breadcrumb1_path (data w)
   \<and> breadcrumb2_path (data (add_breadcrumbs bmax cs w)) = breadcrumb2_path (data w)"
  by (induction cs arbitrary: w) (auto simp: add_breadcrumb_paths)

lemma add_breadcrumbs_append:
  "add_breadcrumbs bmax (xs @ ys) w = add_breadcrumbs bmax ys (add_breadcrumbs bmax xs w)"
  by (induction xs arbitrary: w) auto

lemma add_breadcrumbs_unat_counter:
  assumes "unat (num_breadcrumbs (data w)) + length cs < 2 ^ 64"
  shows "unat (num_breadcrumbs (data (add_breadcrumbs bmax cs w))) =
           unat (num_breadcrumbs (data w)) + length cs"
proof -
  have "unat (num_breadcrumbs (data w) + word_of_nat (length cs)) =
          (unat (num_breadcrumbs (data w)) + length cs) mod 2 ^ 64"
    by (simp add: unat_word_ariths unat_of_nat mod_add_right_eq)
  with assms show ?thesis by (simp add: add_breadcrumbs_counter)
qed

lemma add_breadcrumb_io_log:
  assumes "2 * bmax < 2 ^ 31"
    and "breadcrumb1_path (data w) = Some fa" and "breadcrumb2_path (data w) = Some fb"
  shows "io_log (sentry__crashpad_backend_add_breadcrumb bmax b (Some buf) rv w) =
           io_log w @
           [(if unat (num_breadcrumbs (data w)) mod bmax = 0 then WriteBuffer else AppendBuffer)
              (if unat (num_breadcrumbs (data w)) mod (2 * bmax) < bmax then fa else fb) buf rv]"
proof -
  have b: "bmax < 2 ^ 31" using assms(1) by simp
  show ?thesis
    using assms(2,3)
    by (simp add: sentry__crashpad_backend_add_breadcrumb_def Let_def sentry_value_decref_def
        sentry__path_write_buffer_def sentry__path_append_buffer_def
        first_breadcrumb_nat [OF b] breadcrumb_file_nat [OF assms(1)] del: of_nat_mult)
qed

lemma add_breadcrumb_no_buffer:
  "io_log (sentry__crashpad_backend_add_breadcrumb bmax b None rv w) = io_log w
   \<and> files (sentry__crashpad_backend_add_breadcrumb bmax b None rv w) = files w"
  by (simp add: sentry__crashpad_backend_add_breadcrumb_def Let_def sentry_value_decref_def
      split: option.splits)

lemma add_breadcrumb_ok_files:
  assumes "2 * bmax < 2 ^ 31"
    and "breadcrumb1_path (data w) = Some fa" and "breadcrumb2_path (data w) = Some fb"
  shows "files (sentry__crashpad_backend_add_breadcrumb bmax b (Some buf) 0 w) =
           (files w)
             ((if unat (num_breadcrumbs (data w)) mod (2 * bmax) < bmax then fa else fb) :=
                (if unat (num_breadcrumbs (data w)) mod bmax = 0 then [buf]
                 else files w (if unat (num_breadcrumbs (data w)) mod (2 * bmax) < bmax
                               then fa else fb) @ [buf]))"
proof -
  have b: "bmax < 2 ^ 31" using assms(1) by simp
  show ?thesis
    using assms(2,3)
    by (simp add: sentry__crashpad_backend_add_breadcrumb_def Let_def sentry_value_decref_def
        sentry__path_write_buffer_def sentry__path_append_buffer_def
        first_breadcrumb_nat [OF b] breadcrumb_file_nat [OF assms(1)] del: of_nat_mult)
qed

lemma half_of_cycle:
  fixes c bmax j :: nat
  assumes "c mod bmax = 0" and "j < bmax"
  shows "((c + j) mod (2 * bmax) < bmax) = (c mod (2 * bmax) < bmax)"
    and "((c + j) mod bmax = 0) = (j = 0)"
proof -
  define q where "q = c div bmax"
  from assms(1) have c: "c = bmax * q"
    using mult_div_mod_eq [of bmax c] by (simp add: q_def)
  have "(bmax * q) mod (bmax * 2) = bmax * (q mod 2)"
    by (rule mult_mod_right [symmetric])
  moreover have "q mod 2 = 0 \<or> q mod 2 = 1" by presburger
  ultimately have cases: "c mod (2 * bmax) = 0 \<or> c mod (2 * bmax) = bmax"
    unfolding c by (auto simp: mult.commute)
  have "(c + j) mod (2 * bmax) = (c mod (2 * bmax) + j) mod (2 * bmax)"
    by (simp add: mod_add_left_eq)
  also have "\<dots> = c mod (2 * bmax) + j"
    using cases assms(2) by auto
  finally have "(c + j) mod (2 * bmax) = c mod (2 * bmax) + j" .
  with cases assms(2) show "((c + j) mod (2 * bmax) < bmax) = (c mod (2 * bmax) < bmax)"
    by auto
  have "(c + j) mod bmax = j mod bmax"
    using assms(1) by (metis add.left_neutral mod_add_left_eq)
  with assms(2) show "((c + j) mod bmax = 0) = (j = 0)" by simp
qed

text \<open>
  One half of a cycle: starting with the counter at a multiple of \<open>bmax\<close>, up to \<open>bmax\<close>
  successful calls leave exactly their records, in order, in the half's target file and
  touch no other file.
\<close>

lemma ring_block:
  assumes bm: "2 * bmax < 2 ^ 31"
    and pa: "breadcrumb1_path (data w) = Some fa" and pb: "breadcrumb2_path (data w) = Some fb"
    and c0: "unat (num_breadcrumbs (data w)) mod bmax = 0"
  shows "length ps \<le> bmax \<Longrightarrow> unat (num_breadcrumbs (data w)) + length ps < 2 ^ 64 \<Longrightarrow>
         files (add_breadcrumbs bmax (map (\<lambda>(b, buf). ok_call b buf) ps) w) =
           (if ps = [] then files w
            else (files w)
              ((if unat (num_breadcrumbs (data w)) mod (2 * bmax) < bmax then fa else fb) :=
                 map snd ps))"
proof (induction ps rule: rev_induct)
  case Nil
  show ?case by simp
next
  case (snoc p ps)
  obtain b buf where p: "p = (b, buf)" by (cases p)
  let ?c = "unat (num_breadcrumbs (data w))"
  let ?w1 = "add_breadcrumbs bmax (map (\<lambda>(b, buf). ok_call b buf) ps) w"
  let ?tgt = "if ?c mod (2 * bmax) < bmax then fa else fb"
  from snoc.prems have len: "length ps < bmax" and nov: "?c + length ps < 2 ^ 64" by auto
  have ih: "files ?w1 = (if ps = [] then files w else (files w)(?tgt := map snd ps))"
    using snoc.IH len nov by simp
  have cnt: "unat (num_breadcrumbs (data ?w1)) = ?c + length ps"
    using add_breadcrumbs_unat_counter [of w "map (\<lambda>(b, buf). ok_call b buf) ps" bmax] nov
    by simp
  have pa1: "breadcrumb1_path (data ?w1) = Some fa"
    and pb1: "breadcrumb2_path (data ?w1) = Some fb"
    using pa pb by (simp_all add: add_breadcrumbs_paths)
  have step: "files (sentry__crashpad_backend_add_breadcrumb bmax b (Some buf) 0 ?w1) =
                (files ?w1)(?tgt := (if ps = [] then [buf] else files ?w1 ?tgt @ [buf]))"
    using add_breadcrumb_ok_files [OF bm pa1 pb1, of b buf]
    by (simp add: cnt half_of_cycle [OF c0 len])
  have "add_breadcrumbs bmax (map (\<lambda>(b, buf). ok_call b buf) (ps @ [p])) w =
          sentry__crashpad_backend_add_breadcrumb bmax b (Some buf) 0 ?w1"
    by (simp add: add_breadcrumbs_append p ok_call_def)
  then show ?case
    using step ih by (auto simp: p)
qed

text \<open>A full cycle: \<open>2 * bmax\<close> successful calls from a fresh counter.\<close>

lemma ring_full_cycle:
  assumes bm0: "0 < bmax" and bm: "2 * bmax < 2 ^ 31"
    and pa: "breadcrumb1_path (data w0) = Some fa" and pb: "breadcrumb2_path (data w0) = Some fb"
    and ne: "fa \<noteq> fb" and z: "num_breadcrumbs (data w0) = 0"
    and len: "length ps = 2 * bmax"
  shows "files (add_breadcrumbs bmax (map (\<lambda>(b, buf). ok_call b buf) ps) w0) =
           (files w0)(fa := map snd (take bmax ps), fb := map snd (drop bmax ps))"
    and "unat (num_breadcrumbs (data (add_breadcrumbs bmax (map (\<lambda>(b, buf). ok_call b buf) ps) w0)))
           = 2 * bmax"
proof -
  let ?ok = "map (\<lambda>(b, buf). ok_call b buf)"
  define ps1 where "ps1 = take bmax ps"
  define ps2 where "ps2 = drop bmax ps"
  have l1: "length ps1 = bmax" and l2: "length ps2 = bmax"
    using len by (simp_all add: ps1_def ps2_def)
  have split: "ps = ps1 @ ps2" by (simp add: ps1_def ps2_def)
  define w1 where "w1 = add_breadcrumbs bmax (?ok ps1) w0"
  define w2 where "w2 = add_breadcrumbs bmax (?ok ps2) w1"
  have b64: "bmax < 2 ^ 64" "bmax + bmax < 2 ^ 64"
    using bm by simp_all
  have run: "add_breadcrumbs bmax (?ok ps) w0 = w2"
    by (subst split) (simp add: add_breadcrumbs_append w1_def w2_def)
  have u0: "unat (num_breadcrumbs (data w0)) = 0" using z by simp
  have ne1: "ps1 \<noteq> []" and ne2: "ps2 \<noteq> []" using l1 l2 bm0 by auto
  have f1: "files w1 = (files w0)(fa := map snd ps1)"
    unfolding w1_def
    using ring_block [OF bm pa pb, of ps1] u0 l1 ne1 bm0 b64 by simp
  have p1: "breadcrumb1_path (data w1) = Some fa" "breadcrumb2_path (data w1) = Some fb"
    using pa pb by (simp_all add: w1_def add_breadcrumbs_paths)
  have u1: "unat (num_breadcrumbs (data w1)) = bmax"
    unfolding w1_def
    using add_breadcrumbs_unat_counter [of w0 "?ok ps1" bmax] u0 l1 b64 by simp
  have f2: "files w2 = (files w1)(fb := map snd ps2)"
    unfolding w2_def
    using ring_block [OF bm p1, of ps2] u1 l2 ne2 bm0 b64 by simp
  show "files (add_breadcrumbs bmax (?ok ps) w0) =
          (files w0)(fa := map snd (take bmax ps), fb := map snd (drop bmax ps))"
    by (simp add: run f2 f1 ps1_def ps2_def)
  show "unat (num_breadcrumbs (data (add_breadcrumbs bmax (?ok ps) w0))) = 2 * bmax"
    unfolding run w2_def
    using add_breadcrumbs_unat_counter [of w1 "?ok ps2" bmax] u1 l2 b64 by simp
qed

lemma ring_full_cycle_plus_one:
  assumes bm0: "0 < bmax" and bm: "2 * bmax < 2 ^ 31"
    and pa: "breadcrumb1_path (data w0) = Some fa" and pb: "breadcrumb2_path (data w0) = Some fb"
    and ne: "fa \<noteq> fb" and z: "num_breadcrumbs (data w0) = 0"
    and len: "length ps = 2 * bmax + 1"
  shows "files (add_breadcrumbs bmax (map (\<lambda>(b, buf). ok_call b buf) ps) w0) fa = [snd (last ps)]"
    and "files (add_breadcrumbs bmax (map (\<lambda>(b, buf). ok_call b buf) ps) w0) fb =
           map snd (take bmax (drop bmax ps))"
proof -
  let ?ok = "map (\<lambda>(b, buf). ok_call b buf)"
  define qs where "qs = butlast ps"
  have "ps \<noteq> []" using len by auto
  then have ps: "ps = qs @ [last ps]" by (simp add: qs_def)
  have lq: "length qs = 2 * bmax" using len by (simp add: qs_def)
  define w2 where "w2 = add_breadcrumbs bmax (?ok qs) w0"
  have f2: "files w2 = (files w0)(fa := map snd (take bmax qs), fb := map snd (drop bmax qs))"
    and u2: "unat (num_breadcrumbs (data w2)) = 2 * bmax"
    unfolding w2_def by (rule ring_full_cycle [OF bm0 bm pa pb ne z lq])+
  have p2: "breadcrumb1_path (data w2) = Some fa" "breadcrumb2_path (data w2) = Some fb"
    using pa pb by (simp_all add: w2_def add_breadcrumbs_paths)
  have b64: "2 * bmax + 1 < 2 ^ 64" using bm by simp
  have run: "add_breadcrumbs bmax (?ok ps) w0 = add_breadcrumbs bmax (?ok [last ps]) w2"
    by (subst ps) (simp add: add_breadcrumbs_append w2_def del: add_breadcrumbs.simps)
  have f3: "files (add_breadcrumbs bmax (?ok [last ps]) w2) = (files w2)(fa := [snd (last ps)])"
    using ring_block [OF bm p2, of "[last ps]"] u2 bm0 b64 by simp
  have tk: "take bmax (drop bmax ps) = drop bmax qs"
    using lq by (subst ps) simp
  show "files (add_breadcrumbs bmax (?ok ps) w0) fa = [snd (last ps)]"
    using f3 by (simp add: run)
  show "files (add_breadcrumbs bmax (?ok ps) w0) fb = map snd (take bmax (drop bmax ps))"
    using ne f3 by (simp add: run f2 tk)
qed

lemma kth_call_io:
  assumes bm: "2 * bmax < 2 ^ 31"
    and pa: "breadcrumb1_path (data w0) = Some fa" and pb: "breadcrumb2_path (data w0) = Some fb"
    and z: "num_breadcrumbs (data w0) = 0"
    and k: "length cs < 2 ^ 64"
  shows "io_log (sentry__crashpad_backend_add_breadcrumb bmax b (Some buf) rv
                   (add_breadcrumbs bmax cs w0)) =
           io_log (add_breadcrumbs bmax cs w0) @
           [(if length cs mod bmax = 0 then WriteBuffer else AppendBuffer)
              (if length cs mod (2 * bmax) < bmax then fa else fb) buf rv]"
proof -
  let ?w = "add_breadcrumbs bmax cs w0"
  have "unat (num_breadcrumbs (data ?w)) = length cs"
    using add_breadcrumbs_unat_counter [of w0 cs bmax] z k by simp
  moreover have "breadcrumb1_path (data ?w) = Some fa" "breadcrumb2_path (data ?w) = Some fb"
    using pa pb by (simp_all add: add_breadcrumbs_paths)
  ultimately show ?thesis
    using add_breadcrumb_io_log [OF bm, of ?w fa fb b buf rv] by simp
qed

text \<open>
  C3, as amended.  Take a backend whose two breadcrumb paths are set (to different
  files) and whose counter is 0, and \<^verbatim>\<open>SENTRY_BREADCRUMBS_MAX\<close> a positive \<^verbatim>\<open>int\<close> that
  can be doubled.  After any \<open>k\<close> calls (\<open>k\<close> within the range of the \<^verbatim>\<open>size_t\<close> counter),
  whatever their outcomes, the next call selects file A when
  \<open>k mod (2 * MAX) < MAX\<close> and file B otherwise; if its serialization succeeds it
  makes exactly one filesystem call on that file, an overwrite with the one record when
  \<open>k mod MAX = 0\<close> and an append otherwise; if its serialization fails it makes no
  filesystem call.  And after \<open>2 * MAX + 1\<close> calls whose serialization and write all
  succeeded, file A holds exactly the last record and file B exactly the \<open>MAX\<close> records
  of the calls \<open>MAX\<close> to \<open>2 * MAX - 1\<close>.
\<close>

theorem breadcrumb_rotation_schedule:
  assumes "0 < bmax" and "2 * bmax < 2 ^ 31"
    and "breadcrumb1_path (data w0) = Some fa" and "breadcrumb2_path (data w0) = Some fb"
    and "fa \<noteq> fb" and "num_breadcrumbs (data w0) = 0"
  shows "(\<forall>cs b buf rv. length cs < 2 ^ 64 \<longrightarrow>
            io_log (sentry__crashpad_backend_add_breadcrumb bmax b (Some buf) rv
                      (add_breadcrumbs bmax cs w0)) =
              io_log (add_breadcrumbs bmax cs w0) @
              [(if length cs mod bmax = 0 then WriteBuffer else AppendBuffer)
                 (if length cs mod (2 * bmax) < bmax then fa else fb) buf rv])
       \<and> (\<forall>cs b rv.
            io_log (sentry__crashpad_backend_add_breadcrumb bmax b None rv
                      (add_breadcrumbs bmax cs w0)) = io_log (add_breadcrumbs bmax cs w0))
       \<and> (\<forall>ps. length ps = 2 * bmax + 1 \<longrightarrow>
            files (add_breadcrumbs bmax (map (\<lambda>(b, buf). ok_call b buf) ps) w0) fa =
              [snd (last ps)]
            \<and> files (add_breadcrumbs bmax (map (\<lambda>(b, buf). ok_call b buf) ps) w0) fb =
              map snd (take bmax (drop bmax ps)))"
proof (intro conjI allI impI)
  fix cs :: "breadcrumb_call list" and b buf rv
  assume "length cs < 2 ^ 64"
  then show "io_log (sentry__crashpad_backend_add_breadcrumb bmax b (Some buf) rv
                      (add_breadcrumbs bmax cs w0)) =
              io_log (add_breadcrumbs bmax cs w0) @
              [(if length cs mod bmax = 0 then WriteBuffer else AppendBuffer)
                 (if length cs mod (2 * bmax) < bmax then fa else fb) buf rv]"
    using assms by (intro kth_call_io)
next
  fix cs :: "breadcrumb_call list" and b rv
  show "io_log (sentry__crashpad_backend_add_breadcrumb bmax b None rv
                  (add_breadcrumbs bmax cs w0)) = io_log (add_breadcrumbs bmax cs w0)"
    by (simp add: add_breadcrumb_no_buffer)
next
  fix ps :: "(sentry_value \<times> string) list"
  assume "length ps = 2 * bmax + 1"
  then show "files (add_breadcrumbs bmax (map (\<lambda>(b, buf). ok_call b buf) ps) w0) fa =
               [snd (last ps)]"
    using assms by (intro ring_full_cycle_plus_one)
next
  fix ps :: "(sentry_value \<times> string) list"
  assume "length ps = 2 * bmax + 1"
  then show "files (add_breadcrumbs bmax (map (\<lambda>(b, buf). ok_call b buf) ps) w0) fb =
               map snd (take bmax (drop bmax ps))"
    using assms by (intro ring_full_cycle_plus_one)
qed

text \<open>
  The theorem at \<^verbatim>\<open>SENTRY_BREADCRUMBS_MAX\<close> = 2 on a started backend: the fourth call,
  after one failed serialization and one failed write, appends to file B; five
  successful calls leave one record in file A and two in file B.
\<close>

theorem breadcrumb_rotation_schedule_witness:
  "(0::nat) < 2 \<and> (2::nat) * 2 < 2 ^ 31
   \<and> breadcrumb1_path (data started_crashpad_world) = Some ''run/__sentry-breadcrumb1''
   \<and> breadcrumb2_path (data started_crashpad_world) = Some ''run/__sentry-breadcrumb2''
   \<and> ''run/__sentry-breadcrumb1'' \<noteq> ''run/__sentry-breadcrumb2''
   \<and> num_breadcrumbs (data started_crashpad_world) = 0
   \<and> io_log (sentry__crashpad_backend_add_breadcrumb 2 (VRef 3) (Some ''r3'') 0
               (add_breadcrumbs 2
                  [(VRef 0, Some ''r0'', 0), (VRef 1, None, 0), (VRef 2, Some ''r2'', 5)]
                  started_crashpad_world)) =
       io_log (add_breadcrumbs 2
                  [(VRef 0, Some ''r0'', 0), (VRef 1, None, 0), (VRef 2, Some ''r2'', 5)]
                  started_crashpad_world)
       @ [AppendBuffer ''run/__sentry-breadcrumb2'' ''r3'' 0]
   \<and> files (add_breadcrumbs 2
              (map (\<lambda>(b, buf). ok_call b buf)
                 [(VRef 0, ''r0''), (VRef 1, ''r1''), (VRef 2, ''r2''), (VRef 3, ''r3''),
                  (VRef 4, ''r4'')])
              started_crashpad_world) ''run/__sentry-breadcrumb1'' = [''r4'']
   \<and> files (add_breadcrumbs 2
              (map (\<lambda>(b, buf). ok_call b buf)
                 [(VRef 0, ''r0''), (VRef 1, ''r1''), (VRef 2, ''r2''), (VRef 3, ''r3''),
                  (VRef 4, ''r4'')])
              started_crashpad_world) ''run/__sentry-breadcrumb2'' = [''r2'', ''r3'']"
proof -
  have h: "(0::nat) < 2" "(2::nat) * 2 < 2 ^ 31"
    "breadcrumb1_path (data started_crashpad_world) = Some ''run/__sentry-breadcrumb1''"
    "breadcrumb2_path (data started_crashpad_world) = Some ''run/__sentry-breadcrumb2''"
    "''run/__sentry-breadcrumb1'' \<noteq> ''run/__sentry-breadcrumb2''"
    "num_breadcrumbs (data started_crashpad_world) = 0"
    by (simp_all add: started_crashpad_world_def)
  note t = breadcrumb_rotation_schedule [OF h]
  have a: "io_log (sentry__crashpad_backend_add_breadcrumb 2 (VRef 3) (Some ''r3'') 0
               (add_breadcrumbs 2
                  [(VRef 0, Some ''r0'', 0), (VRef 1, None, 0), (VRef 2, Some ''r2'', 5)]
                  started_crashpad_world)) =
       io_log (add_breadcrumbs 2
                  [(VRef 0, Some ''r0'', 0), (VRef 1, None, 0), (VRef 2, Some ''r2'', 5)]
                  started_crashpad_world)
       @ [AppendBuffer ''run/__sentry-breadcrumb2'' ''r3'' 0]"
    using t [THEN conjunct1, rule_format,
        of "[(VRef 0, Some ''r0'', 0), (VRef 1, None, 0), (VRef 2, Some ''r2'', 5)]"
           "VRef 3" "''r3''" 0]
    by simp
  have b: "files (add_breadcrumbs 2
              (map (\<lambda>(b, buf). ok_call b buf)
                 [(VRef 0, ''r0''), (VRef 1, ''r1''), (VRef 2, ''r2''), (VRef 3, ''r3''),
                  (VRef 4, ''r4'')])
              started_crashpad_world) ''run/__sentry-breadcrumb1'' = [''r4'']
   \<and> files (add_breadcrumbs 2
              (map (\<lambda>(b, buf). ok_call b buf)
                 [(VRef 0, ''r0''), (VRef 1, ''r1''), (VRef 2, ''r2''), (VRef 3, ''r3''),
                  (VRef 4, ''r4'')])
              started_crashpad_world) ''run/__sentry-breadcrumb2'' = [''r2'', ''r3'']"
    using t [THEN conjunct2, THEN conjunct2, rule_format,
        of "[(VRef 0, ''r0''), (VRef 1, ''r1''), (VRef 2, ''r2''), (VRef 3, ''r3''),
             (VRef 4, ''r4'')]"]
    by simp
  show ?thesis using h a b by blast
qed

text \<open>
  C3 as stated fails where a serialization fails.  With \<^verbatim>\<open>SENTRY_BREADCRUMBS_MAX\<close> =
  100, let 200 calls succeed and let the serialization of call number 200 (the
  \<open>2 * MAX + 1\<close>-th) fail: file A then still holds the 100 records of the first half,
  not 1.  Likewise the very first call (\<open>k = 0\<close>) overwrites nothing when its
  serialization fails.
\<close>

theorem breadcrumb_rotation_counterexample:
  "length (map (\<lambda>(b, buf). ok_call b buf) two_hundred_crumbs @ [(VRef 200, None, 0)]) = 2 * 100 + 1
   \<and> length (files (add_breadcrumbs 100
                (map (\<lambda>(b, buf). ok_call b buf) two_hundred_crumbs @ [(VRef 200, None, 0)])
                started_crashpad_world) ''run/__sentry-breadcrumb1'') = 100
   \<and> io_log (sentry__crashpad_backend_add_breadcrumb 100 (VRef 0) None 0 started_crashpad_world)
       = []"
proof -
  have h: "(0::nat) < 100" "(2::nat) * 100 < 2 ^ 31"
    "breadcrumb1_path (data started_crashpad_world) = Some ''run/__sentry-breadcrumb1''"
    "breadcrumb2_path (data started_crashpad_world) = Some ''run/__sentry-breadcrumb2''"
    "''run/__sentry-breadcrumb1'' \<noteq> ''run/__sentry-breadcrumb2''"
    "num_breadcrumbs (data started_crashpad_world) = 0"
    by (simp_all add: started_crashpad_world_def)
  have len: "length two_hundred_crumbs = 2 * 100" by (simp add: two_hundred_crumbs_def)
  have "files (add_breadcrumbs 100 (map (\<lambda>(b, buf). ok_call b buf) two_hundred_crumbs)
                 started_crashpad_world) ''run/__sentry-breadcrumb1'' =
          map snd (take 100 two_hundred_crumbs)"
    using ring_full_cycle(1) [OF h len] by simp
  then have "length (files (add_breadcrumbs 100
                (map (\<lambda>(b, buf). ok_call b buf) two_hundred_crumbs @ [(VRef 200, None, 0)])
                started_crashpad_world) ''run/__sentry-breadcrumb1'') = 100"
    using len by (simp add: add_breadcrumbs_append add_breadcrumb_no_buffer)
  moreover have "io_log (sentry__crashpad_backend_add_breadcrumb 100 (VRef 0) None 0
                   started_crashpad_world) = []"
    by (simp add: add_breadcrumb_no_buffer started_crashpad_world_def)
  ultimately show ?thesis using len by simp
qed

section \<open>Properties of the crash event\<close>

subsection \<open>The frame loop in closed form\<close>

lemma frames_closed:
  "fc - i = n \<Longrightarrow> cells s fr = Some (CList fs) \<Longrightarrow> fr < next_cell s \<Longrightarrow> i \<le> fc \<Longrightarrow>
   make_signal_event_frames bt fc (VRef fr) i s =
     s\<lparr>cells := (\<lambda>a. if a = fr then Some (CList (fs @ map VRef [next_cell s..<next_cell s + (fc - i)]))
                    else if next_cell s \<le> a \<and> a < next_cell s + (fc - i)
                      then Some (CObject [(''instruction_addr'', VAddr (bt ! (fc - 1 - i - (a - next_cell s))))])
                      else cells s a),
       next_cell := next_cell s + (fc - i)\<rparr>"
proof (induction n arbitrary: i s fs)
  case 0
  have "(\<lambda>a. if a = fr then Some (CList (fs @ map VRef [next_cell s..<next_cell s + (fc - i)]))
             else if next_cell s \<le> a \<and> a < next_cell s + (fc - i)
               then Some (CObject [(''instruction_addr'', VAddr (bt ! (fc - 1 - i - (a - next_cell s))))])
               else cells s a) = cells s"
    using 0(1,2) by (auto intro!: ext)
  moreover have "\<not> i < fc" using 0(1,4) by simp
  ultimately show ?case
    using 0(1) by (subst make_signal_event_frames.simps) simp
next
  case (Suc n)
  then have lt: "i < fc" by simp
  let ?m = "next_cell s"
  let ?s1 = "s\<lparr>cells := (cells s)(?m \<mapsto> CObject [(''instruction_addr'', VAddr (bt ! (fc - i - 1)))],
                    fr \<mapsto> CList (fs @ [VRef ?m])), next_cell := Suc ?m\<rparr>"
  have ne: "fr \<noteq> ?m" using Suc.prems(3) by simp
  have s1_eq: "sentry_value_append (VRef fr) (VRef ?m)
                 (sentry_value_set_by_key (VRef ?m) ''instruction_addr''
                    (sentry__value_new_addr (bt ! (fc - i - 1)))
                    (snd (sentry_value_new_object s))) = ?s1"
    using Suc.prems(2) ne
    by (simp add: sentry_value_new_object_def new_cell_def sentry_value_set_by_key_def
          sentry_value_append_def sentry__value_new_addr_def)
  have step: "make_signal_event_frames bt fc (VRef fr) i s =
                make_signal_event_frames bt fc (VRef fr) (Suc i) ?s1"
    using lt
    by (subst make_signal_event_frames.simps, subst s1_eq [symmetric])
       (simp add: Let_def split_def sentry_value_new_object_def new_cell_def)
  have ih: "make_signal_event_frames bt fc (VRef fr) (Suc i) ?s1 =
     ?s1\<lparr>cells := (\<lambda>a. if a = fr then Some (CList ((fs @ [VRef ?m]) @ map VRef [next_cell ?s1..<next_cell ?s1 + (fc - Suc i)]))
                    else if next_cell ?s1 \<le> a \<and> a < next_cell ?s1 + (fc - Suc i)
                      then Some (CObject [(''instruction_addr'', VAddr (bt ! (fc - 1 - Suc i - (a - next_cell ?s1))))])
                      else cells ?s1 a),
       next_cell := next_cell ?s1 + (fc - Suc i)\<rparr>"
    using Suc.prems lt by (intro Suc.IH) auto
  have nx: "Suc ?m + (fc - Suc i) = ?m + (fc - i)" using lt by simp
  have upt: "[?m..<?m + (fc - i)] = ?m # [Suc ?m..<?m + (fc - i)]"
    using lt by (simp add: upt_conv_Cons)
  have cells_eq:
    "(\<lambda>a. if a = fr then Some (CList ((fs @ [VRef ?m]) @ map VRef [Suc ?m..<?m + (fc - i)]))
          else if Suc ?m \<le> a \<and> a < ?m + (fc - i)
            then Some (CObject [(''instruction_addr'', VAddr (bt ! (fc - 1 - Suc i - (a - Suc ?m))))])
            else cells ?s1 a)
     = (\<lambda>a. if a = fr then Some (CList (fs @ map VRef [?m..<?m + (fc - i)]))
          else if ?m \<le> a \<and> a < ?m + (fc - i)
            then Some (CObject [(''instruction_addr'', VAddr (bt ! (fc - 1 - i - (a - ?m))))])
            else cells s a)" (is "?L = ?R")
  proof (rule ext)
    fix a
    consider (list) "a = fr" | (first) "a \<noteq> fr" "a = ?m"
      | (later) "a \<noteq> fr" "Suc ?m \<le> a" "a < ?m + (fc - i)"
      | (outside) "a \<noteq> fr" "a < ?m \<or> ?m + (fc - i) \<le> a"
      by linarith
    then show "?L a = ?R a"
    proof cases
      case list
      then show ?thesis by (simp add: upt)
    next
      case first
      have "fc - i - 1 = fc - 1 - i" by simp
      moreover have "?m < ?m + (fc - i)" using lt by simp
      ultimately show ?thesis using first by (simp del: diff_add_assoc add_diff_assoc)
    next
      case later
      have idx: "fc - 1 - Suc i - (a - Suc ?m) = fc - 1 - i - (a - ?m)" using later(2) by simp
      have c1: "(Suc ?m \<le> a \<and> a < ?m + (fc - i)) = True"
        and c2: "(?m \<le> a \<and> a < ?m + (fc - i)) = True"
        using later by auto
      show ?thesis
        using later(1) by (simp only: c1 c2 if_True if_False idx)
    next
      case outside
      then have c1: "(Suc ?m \<le> a \<and> a < ?m + (fc - i)) = False"
        and c2: "(?m \<le> a \<and> a < ?m + (fc - i)) = False"
        and c3: "a \<noteq> ?m"
        using lt by auto
      have "cells ?s1 a = cells s a" using c3 outside(1) by simp
      then show ?thesis
        using outside(1) by (simp only: c1 c2 if_False)
    qed
  qed
  have nc: "next_cell ?s1 = Suc ?m" by simp
  have upd: "\<And>X Y. ?s1\<lparr>cells := X, next_cell := Y\<rparr> = s\<lparr>cells := X, next_cell := Y\<rparr>"
    by simp
  show ?case
    unfolding step ih nc nx upd cells_eq by (rule refl)
qed


lemma new_cell_proj [simp]:
  "fst (new_cell c s) = VRef (next_cell s)"
  "next_cell (snd (new_cell c s)) = Suc (next_cell s)"
  "cells (snd (new_cell c s)) b = (if b = next_cell s then Some c else cells s b)"
  "calls (snd (new_cell c s)) = calls s"
  "options_transport (snd (new_cell c s)) = options_transport s"
  "options_run (snd (new_cell c s)) = options_run s"
  "sdk.more (snd (new_cell c s)) = sdk.more s"
  by (simp_all add: new_cell_def)

lemma set_by_key_proj [simp]:
  "next_cell (sentry_value_set_by_key v k x s) = next_cell s"
  "cells (sentry_value_set_by_key (VRef a) k x s) b =
     (if b = a then (case cells s a of
                       Some (CObject kvs) \<Rightarrow> Some (CObject (AList.update k x kvs))
                     | other \<Rightarrow> other)
      else cells s b)"
  "calls (sentry_value_set_by_key v k x s) = calls s"
  "options_transport (sentry_value_set_by_key v k x s) = options_transport s"
  "options_run (sentry_value_set_by_key v k x s) = options_run s"
  "sdk.more (sentry_value_set_by_key v k x s) = sdk.more s"
  by (simp_all add: sentry_value_set_by_key_def split: sentry_value.splits option.splits cell.splits)

lemma append_proj [simp]:
  "next_cell (sentry_value_append v x s) = next_cell s"
  "cells (sentry_value_append (VRef a) x s) b =
     (if b = a then (case cells s a of
                       Some (CList xs) \<Rightarrow> Some (CList (xs @ [x]))
                     | other \<Rightarrow> other)
      else cells s b)"
  "calls (sentry_value_append v x s) = calls s"
  "options_transport (sentry_value_append v x s) = options_transport s"
  "options_run (sentry_value_append v x s) = options_run s"
  "sdk.more (sentry_value_append v x s) = sdk.more s"
  by (simp_all add: sentry_value_append_def split: sentry_value.splits option.splits cell.splits)

lemma log_call_proj [simp]:
  "next_cell (log_call c s) = next_cell s"
  "cells (log_call c s) = cells s"
  "calls (log_call c s) = calls s @ [c]"
  "options_transport (log_call c s) = options_transport s"
  "options_run (log_call c s) = options_run s"
  "sdk.more (log_call c s) = sdk.more s"
  by (simp_all add: log_call_def)

lemma frames_keep:
  "fc - i = n \<Longrightarrow>
   calls (make_signal_event_frames bt fc frames i s) = calls s
   \<and> options_transport (make_signal_event_frames bt fc frames i s) = options_transport s
   \<and> options_run (make_signal_event_frames bt fc frames i s) = options_run s
   \<and> sdk.more (make_signal_event_frames bt fc frames i s) = sdk.more s"
proof (induction n arbitrary: i s)
  case 0
  then show ?case by (simp add: make_signal_event_frames.simps [of bt fc frames i s])
next
  case (Suc n)
  then have "fc - Suc i = n" by simp
  from Suc.IH [OF this] show ?case
    by (simp add: make_signal_event_frames.simps [of bt fc frames i s]
          Let_def split_def sentry_value_new_object_def)
qed

lemma frames_proj [simp]:
  "calls (make_signal_event_frames bt fc frames i s) = calls s"
  "options_transport (make_signal_event_frames bt fc frames i s) = options_transport s"
  "options_run (make_signal_event_frames bt fc frames i s) = options_run s"
  "sdk.more (make_signal_event_frames bt fc frames i s) = sdk.more s"
  using frames_keep [OF refl, where fc = fc and i = i and bt = bt and frames = frames and s = s]
  by simp_all

lemma frames_cells:
  assumes "fr < next_cell s" and "cells s fr = Some (CList [])"
  shows "next_cell (make_signal_event_frames bt fc (VRef fr) 0 s) = next_cell s + fc"
    and "cells (make_signal_event_frames bt fc (VRef fr) 0 s) b =
           (if b = fr then Some (CList (map (\<lambda>j. VRef (next_cell s + j)) [0..<fc]))
            else if next_cell s \<le> b \<and> b < next_cell s + fc
              then Some (CObject [(''instruction_addr'', VAddr (bt ! (fc - 1 - (b - next_cell s))))])
              else cells s b)"
proof -
  have "[next_cell s..<next_cell s + fc] = map (\<lambda>j. next_cell s + j) [0..<fc]"
    using map_add_upt [of "next_cell s" fc] by (simp add: add.commute)
  then have "map VRef [next_cell s..<next_cell s + fc] = map (\<lambda>j. VRef (next_cell s + j)) [0..<fc]"
    by simp
  then show "next_cell (make_signal_event_frames bt fc (VRef fr) 0 s) = next_cell s + fc"
    and "cells (make_signal_event_frames bt fc (VRef fr) 0 s) b =
           (if b = fr then Some (CList (map (\<lambda>j. VRef (next_cell s + j)) [0..<fc]))
            else if next_cell s \<le> b \<and> b < next_cell s + fc
              then Some (CObject [(''instruction_addr'', VAddr (bt ! (fc - 1 - (b - next_cell s))))])
              else cells s b)"
    using frames_closed [OF refl assms(2) assms(1), of 0 fc bt] by (simp_all cong: if_cong)
qed

lemmas new_defs = sentry_value_new_event_def sentry_value_new_object_def sentry_value_new_list_def
  sentry__value_new_list_with_size_def sentry_value_new_string_def sentry_value_new_int32_def
  sentry_value_new_bool_def sentry__value_new_level_def sentry__value_new_addr_def

lemma case_new_cell [simp]:
  "(case new_cell c s of (v, s') \<Rightarrow> f v s') = f (VRef (next_cell s)) (snd (new_cell c s))"
  by (simp add: new_cell_def)

lemma mse_frame_facts:
  "fst (make_signal_event dflt unwind sig_slot uctx s) = VRef (next_cell s)"
  "next_cell (snd (make_signal_event dflt unwind sig_slot uctx s)) =
     next_cell s + 9 + length (unwind uctx MAX_FRAMES)"
  "calls (snd (make_signal_event dflt unwind sig_slot uctx s)) =
     calls s @ [Unwind_stack MAX_FRAMES]"
  "options_transport (snd (make_signal_event dflt unwind sig_slot uctx s)) = options_transport s"
  "options_run (snd (make_signal_event dflt unwind sig_slot uctx s)) = options_run s"
  "sdk.more (snd (make_signal_event dflt unwind sig_slot uctx s)) = sdk.more s"
  by (cases sig_slot;
      simp add: make_signal_event_def Let_def new_defs frames_cells cong: let_weak_cong)+


lemma mse_cells:
  fixes s :: "'a sdk_scheme" and unwind :: "'u \<Rightarrow> nat \<Rightarrow> 64 word list" and uctx :: 'u
    and dflt :: "(string \<times> sentry_value) list" and sig_slot :: "signal_slot option"
  defines "n \<equiv> next_cell s"
    and "fc \<equiv> length (unwind uctx MAX_FRAMES)"
    and "cs \<equiv> cells (snd (make_signal_event dflt unwind sig_slot uctx s))"
  shows "cs n = Some (CObject (AList.update ''exception'' (VRef (n + 7 + fc))
                     (AList.update ''level'' (VLevel SENTRY_LEVEL_FATAL) dflt)))"
    and "cs (n + 7 + fc) = Some (CObject [(''values'', VRef (n + 8 + fc))])"
    and "cs (n + 8 + fc) = Some (CList [VRef (n + 1)])"
    and "cs (n + 1) = Some (CObject
           [(''type'', VString (case sig_slot of Some slot \<Rightarrow> signame slot
                                | None \<Rightarrow> ''UNKNOWN_SIGNAL'')),
            (''value'', VString (case sig_slot of Some slot \<Rightarrow> sigdesc slot
                                 | None \<Rightarrow> ''UnknownSignal'')),
            (''mechanism'', VRef (n + 2)),
            (''stacktrace'', VRef (n + 6 + fc))])"
    and "cs (n + 2) = Some (CObject
           [(''type'', VString ''signalhandler''), (''synthetic'', VBool True),
            (''handled'', VBool False), (''meta'', VRef (n + 3))])"
    and "cs (n + 3) = Some (CObject [(''signal'', VRef (n + 4))])"
    and "cs (n + 4) = Some (CObject
           (case sig_slot of
              Some slot \<Rightarrow> [(''name'', VString (signame slot)), (''number'', VInt32 (signum slot))]
            | None \<Rightarrow> []))"
    and "cs (n + 6 + fc) = Some (CObject [(''frames'', VRef (n + 5))])"
    and "cs (n + 5) = Some (CList (map (\<lambda>j. VRef (n + 6 + j)) [0..<fc]))"
  unfolding n_def fc_def cs_def
  by (cases sig_slot;
      simp add: make_signal_event_def Let_def new_defs frames_cells eval_nat_numeral
           cong: let_weak_cong)+

lemma mse_frame_cells:
  fixes s :: "'a sdk_scheme"
  assumes "j < length (unwind uctx MAX_FRAMES)"
  shows "cells (snd (make_signal_event dflt unwind sig_slot uctx s)) (next_cell s + 6 + j) =
           Some (CObject [(''instruction_addr'',
             VAddr (unwind uctx MAX_FRAMES ! (length (unwind uctx MAX_FRAMES) - 1 - j)))])"
  using assms
  apply (cases sig_slot;
      simp add: make_signal_event_def Let_def new_defs frames_cells eval_nat_numeral
           cong: let_weak_cong)
  done


lemma read_value_ref_numeral:
  "read_value (numeral k) cs (VRef a) =
     (case cs a of
        None \<Rightarrow> TDangling
      | Some (CList xs) \<Rightarrow> TList (map (read_value (pred_numeral k) cs) xs)
      | Some (CObject kvs) \<Rightarrow> TObject (map (\<lambda>(k', v). (k', read_value (pred_numeral k) cs v)) kvs))"
  by (simp add: numeral_eq_Suc)

lemma rev_by_index: "rev xs = map (\<lambda>j. xs ! (length xs - 1 - j)) [0..<length xs]"
  by (rule nth_equalityI) (simp_all add: rev_nth)

lemma mse_frames_tree:
  fixes s :: "'a sdk_scheme"
  shows "read_value 2 (cells (snd (make_signal_event dflt unwind sig_slot uctx s)))
           (VRef (next_cell s + 5)) =
         TList (map frame_tree (rev (unwind uctx MAX_FRAMES)))"
proof -
  let ?cs = "cells (snd (make_signal_event dflt unwind sig_slot uctx s))"
  let ?bt = "unwind uctx MAX_FRAMES"
  note c = mse_cells [where s = s and unwind = unwind and uctx = uctx and dflt = dflt
      and sig_slot = sig_slot]
  have "read_value 2 ?cs (VRef (next_cell s + 5)) =
          TList (map (\<lambda>j. read_value 1 ?cs (VRef (next_cell s + 6 + j))) [0..<length ?bt])"
    using c(9) by (simp add: read_value_ref_numeral comp_def)
  also have "map (\<lambda>j. read_value 1 ?cs (VRef (next_cell s + 6 + j))) [0..<length ?bt] =
               map (\<lambda>j. frame_tree (?bt ! (length ?bt - 1 - j))) [0..<length ?bt]"
    by (rule map_cong [OF refl]) (simp add: mse_frame_cells frame_tree_def)
  also have "\<dots> = map frame_tree (rev ?bt)"
    by (subst rev_by_index) (simp add: comp_def)
  finally show ?thesis .
qed

lemma mse_exc_tree:
  fixes s :: "'a sdk_scheme"
  shows "read_value 4 (cells (snd (make_signal_event dflt unwind sig_slot uctx s)))
           (VRef (next_cell s + 1)) =
         TObject
           [(''type'', TString (case sig_slot of Some slot \<Rightarrow> signame slot
                                | None \<Rightarrow> ''UNKNOWN_SIGNAL'')),
            (''value'', TString (case sig_slot of Some slot \<Rightarrow> sigdesc slot
                                 | None \<Rightarrow> ''UnknownSignal'')),
            (''mechanism'', TObject
               [(''type'', TString ''signalhandler''), (''synthetic'', TBool True),
                (''handled'', TBool False),
                (''meta'', TObject [(''signal'', TObject
                   (case sig_slot of
                      Some slot \<Rightarrow> [(''name'', TString (signame slot)),
                                    (''number'', TInt32 (signum slot))]
                    | None \<Rightarrow> []))])]),
            (''stacktrace'', TObject
               [(''frames'', TList (map frame_tree (rev (unwind uctx MAX_FRAMES))))])]"
proof -
  let ?cs = "cells (snd (make_signal_event dflt unwind sig_slot uctx s))"
  note c = mse_cells [where s = s and unwind = unwind and uctx = uctx and dflt = dflt
      and sig_slot = sig_slot]
  have fr: "read_value 2 ?cs (VRef (next_cell s + 5)) =
              TList (map frame_tree (rev (unwind uctx MAX_FRAMES)))"
    by (rule mse_frames_tree)
  have st: "read_value 3 ?cs (VRef (next_cell s + 6 + length (unwind uctx MAX_FRAMES))) =
              TObject [(''frames'', TList (map frame_tree (rev (unwind uctx MAX_FRAMES))))]"
    using fr c(8) by (simp add: read_value_ref_numeral)
  have sg: "read_value 1 ?cs (VRef (next_cell s + 4)) =
              TObject (case sig_slot of
                         Some slot \<Rightarrow> [(''name'', TString (signame slot)),
                                       (''number'', TInt32 (signum slot))]
                       | None \<Rightarrow> [])"
    using c(7) by (cases sig_slot) simp_all
  have mt: "read_value 2 ?cs (VRef (next_cell s + 3)) =
              TObject [(''signal'', TObject (case sig_slot of
                         Some slot \<Rightarrow> [(''name'', TString (signame slot)),
                                       (''number'', TInt32 (signum slot))]
                       | None \<Rightarrow> []))]"
    using sg c(6) by (simp add: read_value_ref_numeral)
  have mc: "read_value 3 ?cs (VRef (next_cell s + 2)) =
              TObject [(''type'', TString ''signalhandler''), (''synthetic'', TBool True),
                (''handled'', TBool False),
                (''meta'', TObject [(''signal'', TObject (case sig_slot of
                         Some slot \<Rightarrow> [(''name'', TString (signame slot)),
                                       (''number'', TInt32 (signum slot))]
                       | None \<Rightarrow> []))])]"
    using mt c(5) by (simp add: read_value_ref_numeral)
  show ?thesis
    using mc st c(4) by (simp add: read_value_ref_numeral)
qed

subsection \<open>Reading the event\<close>

lemma mse_level:
  fixes s :: "'a sdk_scheme"
  shows "sentry_value_get_by_key (cells (snd (make_signal_event dflt unwind sig_slot uctx s)))
           (VRef (next_cell s)) ''level'' = VLevel SENTRY_LEVEL_FATAL"
  using mse_cells(1) [where s = s and unwind = unwind and uctx = uctx and dflt = dflt
      and sig_slot = sig_slot]
  by (simp add: sentry_value_get_by_key_def update_conv')

lemma mse_exception_values:
  fixes s :: "'a sdk_scheme"
  shows "event_exception_values (cells (snd (make_signal_event dflt unwind sig_slot uctx s)))
           (VRef (next_cell s)) = [VRef (next_cell s + 1)]"
proof -
  note c = mse_cells [where s = s and unwind = unwind and uctx = uctx and dflt = dflt
      and sig_slot = sig_slot]
  show ?thesis
    using c(1) c(2) c(3)
    by (simp add: event_exception_values_def sentry_value_get_by_key_def
        sentry_value_items_def update_conv')
qed

lemma mse_event_frames:
  fixes s :: "'a sdk_scheme"
  shows "event_frames (cells (snd (make_signal_event dflt unwind sig_slot uctx s)))
           (VRef (next_cell s)) =
         map (\<lambda>j. VRef (next_cell s + 6 + j)) [0..<length (unwind uctx MAX_FRAMES)]"
proof -
  note c = mse_cells [where s = s and unwind = unwind and uctx = uctx and dflt = dflt
      and sig_slot = sig_slot]
  have "event_frames (cells (snd (make_signal_event dflt unwind sig_slot uctx s)))
          (VRef (next_cell s)) =
        sentry_value_items (cells (snd (make_signal_event dflt unwind sig_slot uctx s)))
          (sentry_value_get_by_key (cells (snd (make_signal_event dflt unwind sig_slot uctx s)))
             (sentry_value_get_by_key (cells (snd (make_signal_event dflt unwind sig_slot uctx s)))
                (VRef (next_cell s + 1)) ''stacktrace'') ''frames'')"
    by (simp add: event_frames_def mse_exception_values)
  also have "\<dots> = map (\<lambda>j. VRef (next_cell s + 6 + j)) [0..<length (unwind uctx MAX_FRAMES)]"
    using c(4) c(8) c(9)
    by (simp add: sentry_value_get_by_key_def sentry_value_items_def)
  finally show ?thesis .
qed

lemma mse_event_frames_read:
  fixes s :: "'a sdk_scheme"
  shows "map (read_value 1 (cells (snd (make_signal_event dflt unwind sig_slot uctx s))))
           (event_frames (cells (snd (make_signal_event dflt unwind sig_slot uctx s)))
              (VRef (next_cell s))) =
         map frame_tree (rev (unwind uctx MAX_FRAMES))"
proof -
  let ?cs = "cells (snd (make_signal_event dflt unwind sig_slot uctx s))"
  let ?bt = "unwind uctx MAX_FRAMES"
  have "map (read_value 1 ?cs) (event_frames ?cs (VRef (next_cell s))) =
          map (\<lambda>j. read_value 1 ?cs (VRef (next_cell s + 6 + j))) [0..<length ?bt]"
    by (simp add: mse_event_frames comp_def)
  also have "\<dots> = map (\<lambda>j. frame_tree (?bt ! (length ?bt - 1 - j))) [0..<length ?bt]"
    by (rule map_cong [OF refl]) (simp add: mse_frame_cells frame_tree_def)
  also have "\<dots> = map frame_tree (rev ?bt)"
    by (subst rev_by_index) (simp add: comp_def)
  finally show ?thesis .
qed

text \<open>
  The event that \<^verbatim>\<open>make_signal_event\<close> builds for a given slot, from every context and
  every starting state: level fatal, and one entry in \<^verbatim>\<open>exception.values\<close> that carries
  the slot's name and description and the mechanism with the slot's name and number.
\<close>

lemma make_signal_event_of_slot:
  fixes s :: "'a sdk_scheme"
  shows "case make_signal_event dflt unwind (Some slot) uctx s of
           (event, s') \<Rightarrow>
             sentry_value_get_by_key (cells s') event ''level'' = VLevel SENTRY_LEVEL_FATAL
             \<and> map (read_value 4 (cells s')) (event_exception_values (cells s') event) =
                 [TObject
                    [(''type'', TString (signame slot)),
                     (''value'', TString (sigdesc slot)),
                     (''mechanism'', TObject
                        [(''type'', TString ''signalhandler''),
                         (''synthetic'', TBool True),
                         (''handled'', TBool False),
                         (''meta'', TObject
                            [(''signal'', TObject
                                [(''name'', TString (signame slot)),
                                 (''number'', TInt32 (signum slot))])])]),
                     (''stacktrace'', TObject
                        [(''frames'',
                          TList (map frame_tree (rev (unwind uctx MAX_FRAMES))))])]]"
proof -
  obtain event s' where r: "make_signal_event dflt unwind (Some slot) uctx s = (event, s')"
    by (cases "make_signal_event dflt unwind (Some slot) uctx s")
  have ev: "event = VRef (next_cell s)"
    using mse_frame_facts(1) [of dflt unwind "Some slot" uctx s] r by simp
  have s': "s' = snd (make_signal_event dflt unwind (Some slot) uctx s)"
    using r by simp
  have "sentry_value_get_by_key (cells s') event ''level'' = VLevel SENTRY_LEVEL_FATAL"
    unfolding ev s' by (rule mse_level)
  moreover have "map (read_value 4 (cells s')) (event_exception_values (cells s') event) =
      [read_value 4 (cells s') (VRef (next_cell s + 1))]"
    unfolding ev s' by (simp add: mse_exception_values)
  ultimately show ?thesis
    unfolding r using mse_exc_tree [of dflt unwind "Some slot" uctx s] by (simp add: s')
qed

text \<open>
  C5, as amended.  For every context and slot, the frame list of the built event has as
  many entries as the backtrace primitive reported, the primitive having been asked for
  at most 128 frames, and the instruction addresses stand in the frame list in the
  reverse of the order in which the primitive wrote them into its buffer: frame \<open>i\<close> holds
  buffer entry \<open>frame_count - i - 1\<close>.
\<close>

theorem make_signal_event_frames_reversed:
  fixes s :: "'a sdk_scheme"
  shows "case make_signal_event dflt unwind sig_slot uctx s of
           (event, s') \<Rightarrow>
             map (read_value 1 (cells s')) (event_frames (cells s') event) =
               map frame_tree (rev (unwind uctx MAX_FRAMES))
             \<and> length (event_frames (cells s') event) = length (unwind uctx MAX_FRAMES)
             \<and> calls s' = calls s @ [Unwind_stack 128]
             \<and> MAX_FRAMES = 128"
proof -
  obtain event s' where r: "make_signal_event dflt unwind sig_slot uctx s = (event, s')"
    by (cases "make_signal_event dflt unwind sig_slot uctx s")
  have ev: "event = VRef (next_cell s)"
    using mse_frame_facts(1) [of dflt unwind sig_slot uctx s] r by simp
  have s': "s' = snd (make_signal_event dflt unwind sig_slot uctx s)"
    using r by simp
  have "map (read_value 1 (cells s')) (event_frames (cells s') event) =
          map frame_tree (rev (unwind uctx MAX_FRAMES))"
    unfolding ev s' by (rule mse_event_frames_read)
  moreover have "length (event_frames (cells s') event) = length (unwind uctx MAX_FRAMES)"
    unfolding ev s' by (simp add: mse_event_frames)
  moreover have "calls s' = calls s @ [Unwind_stack 128]"
    unfolding s' by (simp add: mse_frame_facts(3) MAX_FRAMES_def)
  ultimately show ?thesis
    unfolding r by (simp add: MAX_FRAMES_def)
qed

text \<open>
  C5 as stated fails: a primitive that writes the address 0x1000 and then 0x2000 gives a
  frame list that holds 0x2000 first and 0x1000 second, which is not the order in which
  the primitive produced them.
\<close>

theorem frames_same_order_counterexample:
  "two_frames () MAX_FRAMES = [0x1000, 0x2000]
   \<and> (case make_signal_event [] two_frames None () fresh_unix_process of
         (event, s') \<Rightarrow>
           map (read_value 1 (cells s')) (event_frames (cells s') event) =
             [frame_tree 0x2000, frame_tree 0x1000])
   \<and> [frame_tree 0x2000, frame_tree 0x1000] \<noteq> map frame_tree (two_frames () MAX_FRAMES)"
proof -
  obtain event s' where r: "make_signal_event [] two_frames None () fresh_unix_process = (event, s')"
    by (cases "make_signal_event [] two_frames None () fresh_unix_process")
  have ev: "event = VRef (next_cell fresh_unix_process)"
    using mse_frame_facts(1) [of "[]" two_frames None "()" fresh_unix_process] r by simp
  have s': "s' = snd (make_signal_event [] two_frames None () fresh_unix_process)"
    using r by simp
  have "map (read_value 1 (cells s')) (event_frames (cells s') event) =
          map frame_tree (rev (two_frames () MAX_FRAMES))"
    unfolding ev s' by (rule mse_event_frames_read)
  then show ?thesis
    unfolding r by (simp add: two_frames_def frame_tree_def)
qed

section \<open>Properties of the capture pipeline\<close>

lemmas collaborator_defs =
  sentry__page_allocator_enable_def sentry__enter_signal_handler_def
  sentry__leave_signal_handler_def sentry__write_crash_marker_def
  sentry__enforce_disk_transport_def sentry__end_current_session_with_status_def
  sentry_capture_event_def sentry__transport_dump_queue_def

lemma before_event_proj [simp]:
  "next_cell (before_event s) = next_cell s"
  "cells (before_event s) = cells s"
  "calls (before_event s) =
     calls s @ [Write_crash_marker, Enforce_disk_transport,
                End_current_session SENTRY_SESSION_STATUS_CRASHED]"
  "options_run (before_event s) = options_run s"
  "sdk.more (before_event s) = sdk.more s"
  by (simp_all add: before_event_def collaborator_defs)

lemma capture_facts:
  fixes s :: "'a sdk_scheme"
  shows "calls (handle_ucontext_capture dflt unwind sig_slot uctx s) =
           calls s @
           [Write_crash_marker, Enforce_disk_transport,
            End_current_session SENTRY_SESSION_STATUS_CRASHED,
            Unwind_stack MAX_FRAMES, Capture_event (VRef (next_cell s))] @
           (case options_transport s of
              None \<Rightarrow> []
            | Some t \<Rightarrow> [Transport_dump_queue t (options_run s)])"
    and "cells (handle_ucontext_capture dflt unwind sig_slot uctx s) =
           cells (snd (make_signal_event dflt unwind sig_slot uctx (before_event s)))"
    and "sdk.more (handle_ucontext_capture dflt unwind sig_slot uctx s) = sdk.more s"
  unfolding handle_ucontext_capture_def Let_def split_def before_event_def [symmetric]
  by (cases "options_transport s";
      simp add: collaborator_defs mse_frame_facts)+


subsection \<open>The POSIX handler chain\<close>

lemma sigaction_set_proj [simp]:
  "calls (snd (sigaction_set sig act s)) = calls s @ [Sigaction sig act]"
  "cells (snd (sigaction_set sig act s)) = cells s"
  "next_cell (snd (sigaction_set sig act s)) = next_cell s"
  "g_previous_handlers (snd (sigaction_set sig act s)) = g_previous_handlers s"
  "g_sigaction (snd (sigaction_set sig act s)) = g_sigaction s"
  "sig_valid (snd (sigaction_set sig act s)) = sig_valid s"
  "sigtable (snd (sigaction_set sig act s)) =
     (if sig_valid s sig then (sigtable s)(sig := act) else sigtable s)"
  by (simp_all add: sigaction_set_def log_call_def Let_def)

lemma reset_from:
  "SIGNAL_COUNT_unix - i = n \<Longrightarrow>
   calls (reset_signal_handlers_from pc i s) =
     calls s @ map (\<lambda>j. Sigaction (signum (SIGNAL_DEFINITIONS_unix pc ! j))
                          (g_previous_handlers s j)) [i..<SIGNAL_COUNT_unix]
   \<and> cells (reset_signal_handlers_from pc i s) = cells s
   \<and> next_cell (reset_signal_handlers_from pc i s) = next_cell s
   \<and> g_previous_handlers (reset_signal_handlers_from pc i s) = g_previous_handlers s"
proof (induction n arbitrary: i s)
  case 0
  then show ?case by (simp add: reset_signal_handlers_from.simps [of pc i s])
next
  case (Suc n)
  then have lt: "i < SIGNAL_COUNT_unix" and "SIGNAL_COUNT_unix - Suc i = n" by simp_all
  from Suc.IH [OF this(2)] lt show ?case
    by (simp add: reset_signal_handlers_from.simps [of pc i s] upt_conv_Cons)
qed

lemma invoke_from:
  "SIGNAL_COUNT_unix - i = n \<Longrightarrow>
   invoke_signal_handler_from pc sig info uc i s =
     s\<lparr>calls := calls s @
          concat (map (\<lambda>j. if signum (SIGNAL_DEFINITIONS_unix pc ! j) = sig
                            then rechain pc (g_previous_handlers s j) sig info uc else [])
                    [i..<SIGNAL_COUNT_unix])\<rparr>"
proof (induction n arbitrary: i s)
  case 0
  then show ?case by (simp add: invoke_signal_handler_from.simps [of pc sig info uc i s])
next
  case (Suc n)
  then have lt: "i < SIGNAL_COUNT_unix" and n: "SIGNAL_COUNT_unix - Suc i = n" by simp_all
  let ?here = "if signum (SIGNAL_DEFINITIONS_unix pc ! i) = sig
               then rechain pc (g_previous_handlers s i) sig info uc else []"
  let ?s1 = "s\<lparr>calls := calls s @ ?here\<rparr>"
  have body: "(if signum (SIGNAL_DEFINITIONS_unix pc ! i) = sig then
             (let handler = g_previous_handlers s i
              in if sa_handler handler = SIG_DFL then log_call (Raise sig) s
                 else if sa_flags handler AND SA_SIGINFO pc \<noteq> 0 then
                   log_call (Call_sigaction (sa_sigaction handler) sig info uc) s
                 else if sa_handler handler \<noteq> SIG_IGN then
                   log_call (Call_handler (sa_handler handler) sig) s
                 else s)
           else s) = ?s1"
    by (simp add: rechain_def log_call_def Let_def)
  have "invoke_signal_handler_from pc sig info uc i s =
          invoke_signal_handler_from pc sig info uc (Suc i) ?s1"
    using lt by (subst invoke_signal_handler_from.simps, subst body) simp
  also have "\<dots> = ?s1\<lparr>calls := calls ?s1 @
          concat (map (\<lambda>j. if signum (SIGNAL_DEFINITIONS_unix pc ! j) = sig
                            then rechain pc (g_previous_handlers ?s1 j) sig info uc else [])
                    [Suc i..<SIGNAL_COUNT_unix])\<rparr>"
    by (rule Suc.IH [OF n])
  also have "\<dots> = s\<lparr>calls := calls s @
          concat (map (\<lambda>j. if signum (SIGNAL_DEFINITIONS_unix pc ! j) = sig
                            then rechain pc (g_previous_handlers s j) sig info uc else [])
                    [i..<SIGNAL_COUNT_unix])\<rparr>"
    using lt by (simp add: upt_conv_Cons cong: if_cong)
  finally show ?case .
qed

lemma unix_fields_of_more:
  fixes r r' :: "'a unix_process_scheme"
  assumes "sdk.more r = sdk.more r'"
  shows "g_previous_handlers r = g_previous_handlers r'"
    and "sigtable r = sigtable r'"
    and "sig_valid r = sig_valid r'"
    and "g_sigaction r = g_sigaction r'"
    and "g_signal_stack r = g_signal_stack r'"
  using assms by (cases r, cases r', simp)+

lemma handle_ucontext_unix_calls:
  "calls (handle_ucontext_unix pc dflt unwind uctx s) =
     calls s @
     [Page_allocator_enable, Enter_signal_handler,
      Write_crash_marker, Enforce_disk_transport,
      End_current_session SENTRY_SESSION_STATUS_CRASHED,
      Unwind_stack MAX_FRAMES, Capture_event (VRef (next_cell s))] @
     (case options_transport s of
        None \<Rightarrow> []
      | Some t \<Rightarrow> [Transport_dump_queue t (options_run s)]) @
     map (\<lambda>j. Sigaction (signum (SIGNAL_DEFINITIONS_unix pc ! j)) (g_previous_handlers s j))
       [0..<SIGNAL_COUNT_unix] @
     [Leave_signal_handler] @
     concat (map (\<lambda>j. if signum (SIGNAL_DEFINITIONS_unix pc ! j) = uc_signum uctx
                       then rechain pc (g_previous_handlers s j) (uc_signum uctx)
                              (uc_siginfo uctx) (uc_user_context uctx)
                       else [])
               [0..<SIGNAL_COUNT_unix])"
proof -
  let ?slot = "find_sig_slot (SIGNAL_DEFINITIONS_unix pc) SIGNAL_COUNT_unix (uc_signum uctx) 0 None"
  let ?s1 = "sentry__enter_signal_handler (sentry__page_allocator_enable s)"
  let ?s2 = "handle_ucontext_capture dflt unwind ?slot uctx ?s1"
  let ?s3 = "reset_signal_handlers pc ?s2"
  let ?s4 = "sentry__leave_signal_handler ?s3"
  have m2: "sdk.more ?s2 = sdk.more s"
    by (simp add: capture_facts(3) collaborator_defs)
  have gp2: "g_previous_handlers ?s2 = g_previous_handlers s"
    by (rule unix_fields_of_more(1) [OF m2])
  have c2: "calls ?s2 = calls s @
     [Page_allocator_enable, Enter_signal_handler,
      Write_crash_marker, Enforce_disk_transport,
      End_current_session SENTRY_SESSION_STATUS_CRASHED,
      Unwind_stack MAX_FRAMES, Capture_event (VRef (next_cell s))] @
     (case options_transport s of
        None \<Rightarrow> []
      | Some t \<Rightarrow> [Transport_dump_queue t (options_run s)])"
    by (simp add: capture_facts(1) collaborator_defs cong: option.case_cong)
  note r = reset_from [OF refl, where i = 0 and pc = pc and s = ?s2]
  have c3: "calls ?s3 = calls ?s2 @
      map (\<lambda>j. Sigaction (signum (SIGNAL_DEFINITIONS_unix pc ! j)) (g_previous_handlers s j))
       [0..<SIGNAL_COUNT_unix]"
    and gp3: "g_previous_handlers ?s3 = g_previous_handlers s"
    using r gp2 by (simp_all add: reset_signal_handlers_def)
  have c4: "calls ?s4 = calls ?s3 @ [Leave_signal_handler]"
    and gp4: "g_previous_handlers ?s4 = g_previous_handlers s"
    using gp3 by (simp_all add: collaborator_defs log_call_def)
  have "handle_ucontext_unix pc dflt unwind uctx s =
          invoke_signal_handler pc (uc_signum uctx) (uc_siginfo uctx) (uc_user_context uctx) ?s4"
    by (simp add: handle_ucontext_unix_def Let_def)
  then show ?thesis
    by (simp add: invoke_signal_handler_def invoke_from [OF refl] c4 c3 c2 gp4 cong: if_cong)
qed


lemma find_sig_slot_no_match:
  "count - i = n \<Longrightarrow> count \<le> length defs \<Longrightarrow> code \<notin> set (map signum defs) \<Longrightarrow>
   find_sig_slot defs count code i acc = acc"
proof (induction n arbitrary: i acc)
  case 0
  then show ?case by (simp add: find_sig_slot.simps [of defs count code i acc])
next
  case (Suc n)
  then have lt: "i < count" and n: "count - Suc i = n" by simp_all
  have "defs ! i \<in> set defs" using lt Suc.prems(2) by simp
  then have "signum (defs ! i) \<noteq> code" using Suc.prems(3) by auto
  then show ?case
    using lt Suc.IH [OF n Suc.prems(2,3)]
    by (simp add: find_sig_slot.simps [of defs count code i acc])
qed

text \<open>
  When the numbers of the table are distinct, the lookup of the number of slot \<open>k\<close> ends
  with slot \<open>k\<close>.
\<close>

lemma find_sig_slot_match:
  "count - i = n \<Longrightarrow> count \<le> length defs \<Longrightarrow> distinct (map signum defs) \<Longrightarrow> k < count \<Longrightarrow>
   find_sig_slot defs count (signum (defs ! k)) i acc =
     (if i \<le> k then Some (defs ! k) else acc)"
proof (induction n arbitrary: i acc)
  case 0
  then show ?case by (simp add: find_sig_slot.simps [of defs count _ i acc])
next
  case (Suc n)
  then have lt: "i < count" and n: "count - Suc i = n" by simp_all
  have eq: "signum (defs ! i) = signum (defs ! k) \<longleftrightarrow> i = k"
    using nth_eq_iff_index_eq [OF Suc.prems(3), of i k] lt Suc.prems(2,4) by simp
  have step: "find_sig_slot defs count (signum (defs ! k)) i acc =
          find_sig_slot defs count (signum (defs ! k)) (Suc i)
            (if signum (defs ! i) = signum (defs ! k) then Some (defs ! i) else acc)"
    using lt by (subst find_sig_slot.simps) simp
  show ?case
    unfolding step Suc.IH [OF n Suc.prems(2,3,4)] eq by (cases "i = k") auto
qed

lemma handle_ucontext_unix_cells:
  "cells (handle_ucontext_unix pc dflt unwind uctx s) =
     cells (snd (make_signal_event dflt unwind
                   (find_sig_slot (SIGNAL_DEFINITIONS_unix pc) SIGNAL_COUNT_unix
                      (uc_signum uctx) 0 None)
                   uctx
                   (before_event (sentry__enter_signal_handler
                                    (sentry__page_allocator_enable s)))))"
proof -
  let ?slot = "find_sig_slot (SIGNAL_DEFINITIONS_unix pc) SIGNAL_COUNT_unix (uc_signum uctx) 0 None"
  let ?s1 = "sentry__enter_signal_handler (sentry__page_allocator_enable s)"
  let ?s2 = "handle_ucontext_capture dflt unwind ?slot uctx ?s1"
  note r = reset_from [OF refl, where i = 0 and pc = pc and s = ?s2]
  have "cells (sentry__leave_signal_handler (reset_signal_handlers pc ?s2)) = cells ?s2"
    using r by (simp add: reset_signal_handlers_def collaborator_defs)
  then show ?thesis
    by (simp add: handle_ucontext_unix_def Let_def invoke_signal_handler_def
        invoke_from [OF refl] capture_facts(2))
qed




subsection \<open>Startup on POSIX\<close>

text \<open>
  The first loop of startup, when \<^verbatim>\<open>sigaction\<close> accepts every signal of the table: it
  succeeds and records, for every slot from \<open>i\<close> on, the action installed for the
  slot's signal.
\<close>

lemma startup_record_from_ok:
  "SIGNAL_COUNT_unix - i = n \<Longrightarrow>
   (\<forall>j<SIGNAL_COUNT_unix. sig_valid s (signum (SIGNAL_DEFINITIONS_unix pc ! j))) \<Longrightarrow>
   startup_record_from pc i s =
     (True, s\<lparr>g_previous_handlers :=
                 \<lambda>j. if i \<le> j \<and> j < SIGNAL_COUNT_unix
                      then sigtable s (signum (SIGNAL_DEFINITIONS_unix pc ! j))
                      else g_previous_handlers s j\<rparr>)"
proof (induction n arbitrary: i s)
  case 0
  then have "(\<lambda>j. if i \<le> j \<and> j < SIGNAL_COUNT_unix
                      then sigtable s (signum (SIGNAL_DEFINITIONS_unix pc ! j))
                      else g_previous_handlers s j) = g_previous_handlers s"
    by (auto simp add: fun_eq_iff)
  with 0 show ?case by (simp add: startup_record_from.simps [of pc i s])
next
  case (Suc n)
  then have lt: "i < SIGNAL_COUNT_unix" and n: "SIGNAL_COUNT_unix - Suc i = n" by simp_all
  let ?s1 = "s\<lparr>g_previous_handlers :=
                 (g_previous_handlers s)(i := sigtable s (signum (SIGNAL_DEFINITIONS_unix pc ! i)))\<rparr>"
  have v: "\<forall>j<SIGNAL_COUNT_unix. sig_valid ?s1 (signum (SIGNAL_DEFINITIONS_unix pc ! j))"
    using Suc.prems(2) by simp
  have f: "(\<lambda>j. if Suc i \<le> j \<and> j < SIGNAL_COUNT_unix
                      then sigtable ?s1 (signum (SIGNAL_DEFINITIONS_unix pc ! j))
                      else g_previous_handlers ?s1 j) =
           (\<lambda>j. if i \<le> j \<and> j < SIGNAL_COUNT_unix
                      then sigtable s (signum (SIGNAL_DEFINITIONS_unix pc ! j))
                      else g_previous_handlers s j)"
    using lt by (auto simp add: fun_eq_iff)
  have step: "startup_record_from pc i s = startup_record_from pc (Suc i) ?s1"
    using lt Suc.prems(2) by (simp add: startup_record_from.simps [of pc i s] sigaction_get_def)
  show ?case unfolding step Suc.IH [OF n v] f by simp
qed

text \<open>The second loop of startup installs \<^verbatim>\<open>g_sigaction\<close> for every slot from \<open>i\<close> on.\<close>

lemma startup_install_from_fields:
  "SIGNAL_COUNT_unix - i = n \<Longrightarrow>
   calls (startup_install_from pc i s) =
     calls s @ map (\<lambda>j. Sigaction (signum (SIGNAL_DEFINITIONS_unix pc ! j)) (g_sigaction s))
                 [i..<SIGNAL_COUNT_unix]
   \<and> sigtable (startup_install_from pc i s) =
       (\<lambda>sig. if sig_valid s sig \<and> (\<exists>j. i \<le> j \<and> j < SIGNAL_COUNT_unix \<and>
                                          sig = signum (SIGNAL_DEFINITIONS_unix pc ! j))
               then g_sigaction s else sigtable s sig)
   \<and> cells (startup_install_from pc i s) = cells s
   \<and> next_cell (startup_install_from pc i s) = next_cell s
   \<and> options_transport (startup_install_from pc i s) = options_transport s
   \<and> options_run (startup_install_from pc i s) = options_run s
   \<and> sig_valid (startup_install_from pc i s) = sig_valid s
   \<and> g_sigaction (startup_install_from pc i s) = g_sigaction s
   \<and> g_signal_stack (startup_install_from pc i s) = g_signal_stack s
   \<and> g_previous_handlers (startup_install_from pc i s) = g_previous_handlers s"
proof (induction n arbitrary: i s)
  case 0
  then show ?case by (auto simp add: startup_install_from.simps [of pc i s] fun_eq_iff)
next
  case (Suc n)
  then have lt: "i < SIGNAL_COUNT_unix" and n: "SIGNAL_COUNT_unix - Suc i = n" by simp_all
  let ?s1 = "snd (sigaction_set (signum (SIGNAL_DEFINITIONS_unix pc ! i)) (g_sigaction s) s)"
  have step: "startup_install_from pc i s = startup_install_from pc (Suc i) ?s1"
    using lt by (simp add: startup_install_from.simps [of pc i s])
  have p: "calls ?s1 = calls s @ [Sigaction (signum (SIGNAL_DEFINITIONS_unix pc ! i)) (g_sigaction s)]"
     "sig_valid ?s1 = sig_valid s" "g_sigaction ?s1 = g_sigaction s"
     "sigtable ?s1 = (if sig_valid s (signum (SIGNAL_DEFINITIONS_unix pc ! i))
                      then (sigtable s)(signum (SIGNAL_DEFINITIONS_unix pc ! i) := g_sigaction s)
                      else sigtable s)"
     "cells ?s1 = cells s" "next_cell ?s1 = next_cell s" "options_transport ?s1 = options_transport s"
     "options_run ?s1 = options_run s" "g_signal_stack ?s1 = g_signal_stack s"
     "g_previous_handlers ?s1 = g_previous_handlers s"
    by (simp_all add: sigaction_set_def log_call_def Let_def)
  have t: "(\<lambda>sig. if sig_valid ?s1 sig \<and> (\<exists>j. Suc i \<le> j \<and> j < SIGNAL_COUNT_unix \<and>
                                          sig = signum (SIGNAL_DEFINITIONS_unix pc ! j))
               then g_sigaction ?s1 else sigtable ?s1 sig) =
       (\<lambda>sig. if sig_valid s sig \<and> (\<exists>j. i \<le> j \<and> j < SIGNAL_COUNT_unix \<and>
                                          sig = signum (SIGNAL_DEFINITIONS_unix pc ! j))
               then g_sigaction s else sigtable s sig)"
    unfolding p using lt
    by (auto simp add: fun_eq_iff Suc_le_eq le_less)
  show ?case unfolding step using Suc.IH [OF n, of ?s1] lt
    unfolding t unfolding p by (simp add: upt_conv_Cons)
qed

lemma length_SIGNAL_DEFINITIONS_unix:
  "length (SIGNAL_DEFINITIONS_unix pc) = SIGNAL_COUNT_unix"
  by (simp add: SIGNAL_DEFINITIONS_unix_def SIGNAL_COUNT_unix_def)

text \<open>
  Startup as a whole, when \<^verbatim>\<open>sigaction\<close> accepts every signal of the table: the
  previous actions are recorded slot by slot and the backend's action is installed for
  every signal of the table.
\<close>

lemma startup_unix_fields:
  fixes s :: unix_process and pc mem
  assumes "list_all (sig_valid s) (map signum (SIGNAL_DEFINITIONS_unix pc))"
  defines "act \<equiv> g_sigaction s \<lparr>sa_handler := Handle_signal, sa_sigaction := Handle_signal,
                                     sa_flags := SA_SIGINFO pc OR SA_ONSTACK pc\<rparr>"
  defines "stk \<equiv> \<lparr>ss_sp = mem, ss_size = SIGNAL_STACK_SIZE, ss_flags = 0\<rparr>"
  defines "s' \<equiv> startup_inproc_backend_unix pc mem s"
  shows "calls s' = calls s @ Sigaltstack stk #
            map (\<lambda>j. Sigaction (signum (SIGNAL_DEFINITIONS_unix pc ! j)) act)
              [0..<SIGNAL_COUNT_unix]"
    and "sigtable s' =
       (\<lambda>sig. if sig \<in> set (map signum (SIGNAL_DEFINITIONS_unix pc)) then act
               else sigtable s sig)"
    and "g_previous_handlers s' =
       (\<lambda>j. if j < SIGNAL_COUNT_unix then sigtable s (signum (SIGNAL_DEFINITIONS_unix pc ! j))
            else zero_sigaction)"
    and "cells s' = cells s" and "next_cell s' = next_cell s"
    and "options_transport s' = options_transport s" and "options_run s' = options_run s"
    and "sig_valid s' = sig_valid s" and "g_sigaction s' = act" and "g_signal_stack s' = stk"
proof -
  let ?s0 = "s\<lparr>g_signal_stack := stk, g_previous_handlers := \<lambda>i. zero_sigaction,
                g_sigaction := act, calls := calls s @ [Sigaltstack stk]\<rparr>"
  let ?s1 = "s\<lparr>g_signal_stack := stk, g_sigaction := act,
                calls := calls s @ [Sigaltstack stk],
                g_previous_handlers :=
                 \<lambda>j. if j < SIGNAL_COUNT_unix
                      then sigtable s (signum (SIGNAL_DEFINITIONS_unix pc ! j))
                      else zero_sigaction\<rparr>"
  have v0: "\<forall>j<SIGNAL_COUNT_unix. sig_valid s (signum (SIGNAL_DEFINITIONS_unix pc ! j))"
    using assms(1) by (simp add: list_all_length length_SIGNAL_DEFINITIONS_unix)
  then have v: "\<forall>j<SIGNAL_COUNT_unix. sig_valid ?s0 (signum (SIGNAL_DEFINITIONS_unix pc ! j))"
    by simp
  have m: "sig \<in> set (map signum (SIGNAL_DEFINITIONS_unix pc)) \<longleftrightarrow>
           (\<exists>j. j < SIGNAL_COUNT_unix \<and> sig = signum (SIGNAL_DEFINITIONS_unix pc ! j))" for sig
    using length_SIGNAL_DEFINITIONS_unix [of pc]
    by (auto simp add: in_set_conv_nth image_iff) (metis nth_mem)
  have e: "s' = (case startup_record_from pc 0 ?s0 of
                   (ok, s) \<Rightarrow> if ok then startup_install_from pc 0 s else s)"
    unfolding s'_def act_def stk_def
    by (simp add: startup_inproc_backend_unix_def Let_def log_call_def cong: let_weak_cong)
  have r: "startup_record_from pc 0 ?s0 = (True, ?s1)"
    unfolding startup_record_from_ok [OF refl v] by (simp cong: if_cong)
  have e': "s' = startup_install_from pc 0 ?s1"
    unfolding e r by simp
  note i = startup_install_from_fields [OF refl, where i = 0 and pc = pc and s = ?s1]
  show "calls s' = calls s @ Sigaltstack stk #
            map (\<lambda>j. Sigaction (signum (SIGNAL_DEFINITIONS_unix pc ! j)) act)
              [0..<SIGNAL_COUNT_unix]"
    unfolding e' using i by simp
  show "sigtable s' =
       (\<lambda>sig. if sig \<in> set (map signum (SIGNAL_DEFINITIONS_unix pc)) then act
               else sigtable s sig)"
    unfolding e' m using i v0 by (auto simp add: fun_eq_iff)
  show "g_previous_handlers s' =
       (\<lambda>j. if j < SIGNAL_COUNT_unix then sigtable s (signum (SIGNAL_DEFINITIONS_unix pc ! j))
            else zero_sigaction)"
    unfolding e' using i by simp
  show "cells s' = cells s" "next_cell s' = next_cell s"
    "options_transport s' = options_transport s" "options_run s' = options_run s"
    "sig_valid s' = sig_valid s" "g_sigaction s' = act" "g_signal_stack s' = stk"
    unfolding e' using i by simp_all
qed

lemma startup_unix_installs:
  assumes "list_all (sig_valid s) (map signum (SIGNAL_DEFINITIONS_unix pc))"
    and "sig \<in> set (map signum (SIGNAL_DEFINITIONS_unix pc))"
  shows "sigtable (startup_inproc_backend_unix pc mem s) sig =
           g_sigaction s \<lparr>sa_handler := Handle_signal, sa_sigaction := Handle_signal,
                            sa_flags := SA_SIGINFO pc OR SA_ONSTACK pc\<rparr>"
  using assms(2) unfolding startup_unix_fields(2) [OF assms(1)] by simp

subsection \<open>The concrete processes after startup\<close>

lemma fresh_valid:
  "list_all (sig_valid fresh_unix_process) (map signum (SIGNAL_DEFINITIONS_unix linux_consts))"
  by (simp add: SIGNAL_DEFINITIONS_unix_def SIGNAL_DEF_def linux_consts_def
      fresh_unix_process_def)

lemma started_unix_process_fields:
  "map (g_previous_handlers started_unix_process) [0, 1, 2, 3, 4, 5] =
     [zero_sigaction, zero_sigaction, zero_sigaction, zero_sigaction, zero_sigaction,
      app_segv_action]"
  "map (sigtable started_unix_process) [4, 5, 6, 7, 8, 11] =
     [backend_action, backend_action, backend_action, backend_action, backend_action,
      backend_action]"
  "sig_valid started_unix_process = (\<lambda>sig. 1 \<le> sig \<and> sig \<le> 64)"
  "next_cell started_unix_process = 0"
  "cells started_unix_process = Map.empty"
  "options_transport started_unix_process = Some (Transport 1)"
  "options_run started_unix_process = 0"
  unfolding started_unix_process_def startup_unix_fields [OF fresh_valid]
  by (simp_all add: SIGNAL_COUNT_unix_def SIGNAL_DEFINITIONS_unix_def SIGNAL_DEF_def linux_consts_def
      fresh_unix_process_def backend_action_def zero_sigaction_def)



lemma sigint_not_in_table:
  "(2 :: 32 word) \<notin> set (map signum (SIGNAL_DEFINITIONS_unix linux_consts))"
  by (simp add: SIGNAL_DEFINITIONS_unix_def SIGNAL_DEF_def linux_consts_def)

lemmas exception_code_defs =
  EXCEPTION_ACCESS_VIOLATION_def EXCEPTION_ARRAY_BOUNDS_EXCEEDED_def EXCEPTION_BREAKPOINT_def
  EXCEPTION_DATATYPE_MISALIGNMENT_def EXCEPTION_FLT_DENORMAL_OPERAND_def
  EXCEPTION_FLT_DIVIDE_BY_ZERO_def EXCEPTION_FLT_INEXACT_RESULT_def
  EXCEPTION_FLT_INVALID_OPERATION_def EXCEPTION_FLT_OVERFLOW_def EXCEPTION_FLT_STACK_CHECK_def
  EXCEPTION_FLT_UNDERFLOW_def EXCEPTION_ILLEGAL_INSTRUCTION_def EXCEPTION_IN_PAGE_ERROR_def
  EXCEPTION_INT_DIVIDE_BY_ZERO_def EXCEPTION_INT_OVERFLOW_def EXCEPTION_INVALID_DISPOSITION_def
  EXCEPTION_NONCONTINUABLE_EXCEPTION_def EXCEPTION_PRIV_INSTRUCTION_def
  EXCEPTION_SINGLE_STEP_def EXCEPTION_STACK_OVERFLOW_def

lemma started_windows_process_fields:
  "top_level_filter started_windows_process = Handle_exception"
  "g_previous_handler started_windows_process = Filter 4096"
  "next_cell started_windows_process = 0"
  "calls started_windows_process = []"
  "options_transport started_windows_process = Some (Transport 1)"
  "options_run started_windows_process = 0"
  by (simp_all add: started_windows_process_def startup_inproc_backend_windows_def
      SetUnhandledExceptionFilter_def fresh_windows_process_def)

lemma cxx_exception_not_in_table:
  "(0xE06D7363 :: 32 word) \<notin> set (map signum SIGNAL_DEFINITIONS_windows)"
  by (simp add: SIGNAL_DEFINITIONS_windows_def SIGNAL_DEF_def exception_code_defs)

subsection \<open>Reading the log of a fault\<close>

lemma upt_SIGNAL_COUNT_unix: "[0..<SIGNAL_COUNT_unix] = [0, 1, 2, 3, 4, 5]"
  by (simp add: SIGNAL_COUNT_unix_def upt_rec)

lemma upt_six: "[0..<6] = [0, 1, 2, 3, 4, 5 :: nat]"
  by (simp add: upt_rec)

lemma chain_of_no_slot:
  assumes "code \<notin> set (map signum (SIGNAL_DEFINITIONS_unix pc))"
  shows "concat (map (\<lambda>j. if signum (SIGNAL_DEFINITIONS_unix pc ! j) = code then f j else [])
                   [0..<SIGNAL_COUNT_unix]) = []"
  using assms
  by (auto simp add: upt_SIGNAL_COUNT_unix SIGNAL_DEFINITIONS_unix_def SIGNAL_DEF_def)


lemma pipeline_steps_simps:
  "pipeline_steps (xs @ ys) = pipeline_steps xs @ pipeline_steps ys"
  "pipeline_steps [] = []"
  "pipeline_steps (c # cs) = (if is_pipeline_step c then c # pipeline_steps cs else pipeline_steps cs)"
  by (simp_all add: pipeline_steps_def)

lemma pipeline_steps_sigactions [simp]:
  "pipeline_steps (map (\<lambda>j. Sigaction (a j) (b j)) xs) = []"
  by (induction xs) (simp_all add: pipeline_steps_def)

lemma pipeline_steps_rechain [simp]:
  "pipeline_steps (concat (map (\<lambda>j. if c j then rechain pc (h j) sig info uc else []) xs)) = []"
  by (induction xs) (simp_all add: pipeline_steps_def rechain_def)

lemma captured_events_append [simp]:
  "captured_events (xs @ ys) = captured_events xs @ captured_events ys"
  by (induction xs rule: captured_events.induct) simp_all

lemma captured_events_sigactions [simp]:
  "captured_events (map (\<lambda>j. Sigaction (a j) (b j)) xs) = []"
  by (induction xs) simp_all

lemma captured_events_rechain [simp]:
  "captured_events (concat (map (\<lambda>j. if c j then rechain pc (h j) sig info uc else []) xs)) = []"
  by (induction xs) (simp_all add: rechain_def)

lemma handle_ucontext_windows_calls:
  "calls (handle_ucontext_windows dflt unwind uctx s) =
     calls s @
     [Write_crash_marker, Enforce_disk_transport,
      End_current_session SENTRY_SESSION_STATUS_CRASHED,
      Unwind_stack MAX_FRAMES, Capture_event (VRef (next_cell s))] @
     (case options_transport s of
        None \<Rightarrow> []
      | Some t \<Rightarrow> [Transport_dump_queue t (options_run s)])"
  by (simp add: handle_ucontext_windows_def capture_facts(1))

lemma length_SIGNAL_DEFINITIONS_windows:
  "length SIGNAL_DEFINITIONS_windows = SIGNAL_COUNT_windows"
  by (simp add: SIGNAL_DEFINITIONS_windows_def SIGNAL_COUNT_windows_def)

lemma unknown_exc_tree:
  fixes s :: "'a sdk_scheme"
  shows "map (read_value 4 (cells (snd (make_signal_event dflt unwind None uctx s))))
           (event_exception_values (cells (snd (make_signal_event dflt unwind None uctx s)))
              (VRef (next_cell s))) =
         [TObject
            [(''type'', TString ''UNKNOWN_SIGNAL''),
             (''value'', TString ''UnknownSignal''),
             (''mechanism'', TObject
                [(''type'', TString ''signalhandler''), (''synthetic'', TBool True),
                 (''handled'', TBool False),
                 (''meta'', TObject [(''signal'', TObject [])])]),
             (''stacktrace'', TObject
                [(''frames'', TList (map frame_tree (rev (unwind uctx MAX_FRAMES))))])]]"
  using mse_exc_tree [of dflt unwind None uctx s]
  by (simp add: mse_exception_values)

lemma windows_codes_distinct: "distinct (map signum SIGNAL_DEFINITIONS_windows)"
  by (simp add: SIGNAL_DEFINITIONS_windows_def SIGNAL_DEF_def exception_code_defs)

lemma handle_ucontext_windows_cells:
  "cells (handle_ucontext_windows dflt unwind uctx s) =
     cells (snd (make_signal_event dflt unwind
                   (find_sig_slot SIGNAL_DEFINITIONS_windows SIGNAL_COUNT_windows
                      (ExceptionCode (ExceptionRecord (exception_ptrs uctx))) 0 None)
                   uctx (before_event s)))"
  by (simp add: handle_ucontext_windows_def capture_facts(2))

lemma known_exc_tree:
  fixes s :: "'a sdk_scheme"
  shows "sentry_value_get_by_key (cells (snd (make_signal_event dflt unwind (Some slot) uctx s)))
           (VRef (next_cell s)) ''level'' = VLevel SENTRY_LEVEL_FATAL
         \<and> map (read_value 4 (cells (snd (make_signal_event dflt unwind (Some slot) uctx s))))
           (event_exception_values (cells (snd (make_signal_event dflt unwind (Some slot) uctx s)))
              (VRef (next_cell s))) =
         [TObject
            [(''type'', TString (signame slot)),
             (''value'', TString (sigdesc slot)),
             (''mechanism'', TObject
                [(''type'', TString ''signalhandler''), (''synthetic'', TBool True),
                 (''handled'', TBool False),
                 (''meta'', TObject
                    [(''signal'', TObject
                        [(''name'', TString (signame slot)),
                         (''number'', TInt32 (signum slot))])])]),
             (''stacktrace'', TObject
                [(''frames'', TList (map frame_tree (rev (unwind uctx MAX_FRAMES))))])]]"
  using mse_exc_tree [of dflt unwind "Some slot" uctx s]
  by (simp add: mse_exception_values mse_level)

section \<open>The claims about the handler chain and the pipeline\<close>

text \<open>
  C4.  For every fault whose code is the number of a slot of the fixed table, the event
  that \<^verbatim>\<open>handle_ucontext\<close> builds and captures has level fatal and exactly one entry in
  \<^verbatim>\<open>exception.values\<close>; that entry's type is the slot's symbolic name, its value is the
  slot's description, and its mechanism is the object with type "signalhandler",
  synthetic true, handled false and the signal metadata holding the slot's name and
  number.  On POSIX this is \<^verbatim>\<open>handle_ucontext\<close> for the signal of slot \<open>i\<close>, the six signal
  numbers of the platform being distinct; on Windows it is \<^verbatim>\<open>handle_ucontext\<close> for the
  code of slot \<open>k\<close>, which is what \<^verbatim>\<open>handle_exception\<close> runs for every code but the two
  debugger codes.  The right-hand sides depend on the slot and on what the backtrace
  primitive reports for the context only, not on the state or on the default
  properties of a new event, so two constructions from the same context and slot read
  the same.
\<close>

theorem matching_fault_event_fields:
  "(distinct (map signum (SIGNAL_DEFINITIONS_unix pc)) \<and> i < SIGNAL_COUNT_unix
      \<and> uc_signum uctx = signum (SIGNAL_DEFINITIONS_unix pc ! i) \<longrightarrow>
      captured_events (calls (handle_ucontext_unix pc dflt unwind uctx s)) =
        captured_events (calls s) @ [VRef (next_cell s)]
      \<and> sentry_value_get_by_key (cells (handle_ucontext_unix pc dflt unwind uctx s))
            (VRef (next_cell s)) ''level'' = VLevel SENTRY_LEVEL_FATAL
      \<and> map (read_value 4 (cells (handle_ucontext_unix pc dflt unwind uctx s)))
            (event_exception_values (cells (handle_ucontext_unix pc dflt unwind uctx s))
               (VRef (next_cell s))) =
          [TObject
             [(''type'', TString (signame (SIGNAL_DEFINITIONS_unix pc ! i))),
              (''value'', TString (sigdesc (SIGNAL_DEFINITIONS_unix pc ! i))),
              (''mechanism'', TObject
                 [(''type'', TString ''signalhandler''), (''synthetic'', TBool True),
                  (''handled'', TBool False),
                  (''meta'', TObject
                     [(''signal'', TObject
                         [(''name'', TString (signame (SIGNAL_DEFINITIONS_unix pc ! i))),
                          (''number'', TInt32 (signum (SIGNAL_DEFINITIONS_unix pc ! i)))])])]),
              (''stacktrace'', TObject
                 [(''frames'', TList (map frame_tree (rev (unwind uctx MAX_FRAMES))))])]])
   \<and> (k < SIGNAL_COUNT_windows
      \<and> ExceptionCode (ExceptionRecord (exception_ptrs wctx)) =
           signum (SIGNAL_DEFINITIONS_windows ! k) \<longrightarrow>
      captured_events (calls (handle_ucontext_windows dflt' unwind' wctx w)) =
        captured_events (calls w) @ [VRef (next_cell w)]
      \<and> sentry_value_get_by_key (cells (handle_ucontext_windows dflt' unwind' wctx w))
            (VRef (next_cell w)) ''level'' = VLevel SENTRY_LEVEL_FATAL
      \<and> map (read_value 4 (cells (handle_ucontext_windows dflt' unwind' wctx w)))
            (event_exception_values (cells (handle_ucontext_windows dflt' unwind' wctx w))
               (VRef (next_cell w))) =
          [TObject
             [(''type'', TString (signame (SIGNAL_DEFINITIONS_windows ! k))),
              (''value'', TString (sigdesc (SIGNAL_DEFINITIONS_windows ! k))),
              (''mechanism'', TObject
                 [(''type'', TString ''signalhandler''), (''synthetic'', TBool True),
                  (''handled'', TBool False),
                  (''meta'', TObject
                     [(''signal'', TObject
                         [(''name'', TString (signame (SIGNAL_DEFINITIONS_windows ! k))),
                          (''number'', TInt32 (signum (SIGNAL_DEFINITIONS_windows ! k)))])])]),
              (''stacktrace'', TObject
                 [(''frames'', TList (map frame_tree (rev (unwind' wctx MAX_FRAMES))))])]])
   \<and> (ExceptionCode (ExceptionRecord info) \<noteq> EXCEPTION_BREAKPOINT
      \<and> ExceptionCode (ExceptionRecord info) \<noteq> EXCEPTION_SINGLE_STEP \<longrightarrow>
      snd (handle_exception dflt' unwind' info w) =
        handle_ucontext_windows dflt' unwind' \<lparr>exception_ptrs = info\<rparr> w)"
proof (intro conjI impI)
  assume a: "distinct (map signum (SIGNAL_DEFINITIONS_unix pc)) \<and> i < SIGNAL_COUNT_unix
      \<and> uc_signum uctx = signum (SIGNAL_DEFINITIONS_unix pc ! i)"
  have slot: "find_sig_slot (SIGNAL_DEFINITIONS_unix pc) SIGNAL_COUNT_unix (uc_signum uctx) 0 None
                = Some (SIGNAL_DEFINITIONS_unix pc ! i)"
    using a find_sig_slot_match [OF refl, of SIGNAL_COUNT_unix "SIGNAL_DEFINITIONS_unix pc" i 0 None]
    by (simp add: length_SIGNAL_DEFINITIONS_unix)
  let ?s0 = "before_event (sentry__enter_signal_handler (sentry__page_allocator_enable s))"
  have n: "next_cell ?s0 = next_cell s"
    by (simp add: collaborator_defs)
  note t = known_exc_tree [of dflt unwind "SIGNAL_DEFINITIONS_unix pc ! i" uctx ?s0,
      unfolded n]
  show "captured_events (calls (handle_ucontext_unix pc dflt unwind uctx s)) =
        captured_events (calls s) @ [VRef (next_cell s)]"
    unfolding handle_ucontext_unix_calls
    by (cases "options_transport s") simp_all
  show "sentry_value_get_by_key (cells (handle_ucontext_unix pc dflt unwind uctx s))
            (VRef (next_cell s)) ''level'' = VLevel SENTRY_LEVEL_FATAL"
    unfolding handle_ucontext_unix_cells slot using t by (rule conjunct1)
  show "map (read_value 4 (cells (handle_ucontext_unix pc dflt unwind uctx s)))
            (event_exception_values (cells (handle_ucontext_unix pc dflt unwind uctx s))
               (VRef (next_cell s))) =
          [TObject
             [(''type'', TString (signame (SIGNAL_DEFINITIONS_unix pc ! i))),
              (''value'', TString (sigdesc (SIGNAL_DEFINITIONS_unix pc ! i))),
              (''mechanism'', TObject
                 [(''type'', TString ''signalhandler''), (''synthetic'', TBool True),
                  (''handled'', TBool False),
                  (''meta'', TObject
                     [(''signal'', TObject
                         [(''name'', TString (signame (SIGNAL_DEFINITIONS_unix pc ! i))),
                          (''number'', TInt32 (signum (SIGNAL_DEFINITIONS_unix pc ! i)))])])]),
              (''stacktrace'', TObject
                 [(''frames'', TList (map frame_tree (rev (unwind uctx MAX_FRAMES))))])]]"
    unfolding handle_ucontext_unix_cells slot using t by (rule conjunct2)
next
  assume a: "k < SIGNAL_COUNT_windows
      \<and> ExceptionCode (ExceptionRecord (exception_ptrs wctx)) =
           signum (SIGNAL_DEFINITIONS_windows ! k)"
  have slot: "find_sig_slot SIGNAL_DEFINITIONS_windows SIGNAL_COUNT_windows
                (ExceptionCode (ExceptionRecord (exception_ptrs wctx))) 0 None
                = Some (SIGNAL_DEFINITIONS_windows ! k)"
    using a find_sig_slot_match [OF refl _ windows_codes_distinct,
        of SIGNAL_COUNT_windows k 0 None]
    by (simp add: length_SIGNAL_DEFINITIONS_windows)
  have n: "next_cell (before_event w) = next_cell w"
    by simp
  note t = known_exc_tree [of dflt' unwind' "SIGNAL_DEFINITIONS_windows ! k" wctx
      "before_event w", unfolded n]
  show "captured_events (calls (handle_ucontext_windows dflt' unwind' wctx w)) =
        captured_events (calls w) @ [VRef (next_cell w)]"
    unfolding handle_ucontext_windows_calls
    by (cases "options_transport w") simp_all
  show "sentry_value_get_by_key (cells (handle_ucontext_windows dflt' unwind' wctx w))
            (VRef (next_cell w)) ''level'' = VLevel SENTRY_LEVEL_FATAL"
    unfolding handle_ucontext_windows_cells slot using t by (rule conjunct1)
  show "map (read_value 4 (cells (handle_ucontext_windows dflt' unwind' wctx w)))
            (event_exception_values (cells (handle_ucontext_windows dflt' unwind' wctx w))
               (VRef (next_cell w))) =
          [TObject
             [(''type'', TString (signame (SIGNAL_DEFINITIONS_windows ! k))),
              (''value'', TString (sigdesc (SIGNAL_DEFINITIONS_windows ! k))),
              (''mechanism'', TObject
                 [(''type'', TString ''signalhandler''), (''synthetic'', TBool True),
                  (''handled'', TBool False),
                  (''meta'', TObject
                     [(''signal'', TObject
                         [(''name'', TString (signame (SIGNAL_DEFINITIONS_windows ! k))),
                          (''number'', TInt32 (signum (SIGNAL_DEFINITIONS_windows ! k)))])])]),
              (''stacktrace'', TObject
                 [(''frames'', TList (map frame_tree (rev (unwind' wctx MAX_FRAMES))))])]]"
    unfolding handle_ucontext_windows_cells slot using t by (rule conjunct2)
next
  assume "ExceptionCode (ExceptionRecord info) \<noteq> EXCEPTION_BREAKPOINT
      \<and> ExceptionCode (ExceptionRecord info) \<noteq> EXCEPTION_SINGLE_STEP"
  then show "snd (handle_exception dflt' unwind' info w) =
        handle_ucontext_windows dflt' unwind' \<lparr>exception_ptrs = info\<rparr> w"
    by (simp add: handle_exception_def Let_def)
qed

text \<open>
  The theorem on Linux for a segmentation fault that reaches \<^verbatim>\<open>handle_signal\<close>, and on
  Windows for an access violation that reaches \<^verbatim>\<open>handle_exception\<close>, with a backtrace of
  two addresses.
\<close>

theorem matching_fault_event_fields_witness:
  "distinct (map signum (SIGNAL_DEFINITIONS_unix linux_consts))
   \<and> (5 :: nat) < SIGNAL_COUNT_unix
   \<and> uc_signum \<lparr>uc_signum = 11, uc_siginfo = 77, uc_user_context = 88\<rparr> =
       signum (SIGNAL_DEFINITIONS_unix linux_consts ! 5)
   \<and> captured_events (calls (handle_signal linux_consts [] two_frames 11 77 88
                                 started_unix_process)) =
       captured_events (calls started_unix_process) @ [VRef 0]
   \<and> sentry_value_get_by_key
         (cells (handle_signal linux_consts [] two_frames 11 77 88 started_unix_process))
         (VRef 0) ''level'' = VLevel SENTRY_LEVEL_FATAL
   \<and> map (read_value 4
             (cells (handle_signal linux_consts [] two_frames 11 77 88 started_unix_process)))
        (event_exception_values
           (cells (handle_signal linux_consts [] two_frames 11 77 88 started_unix_process))
           (VRef 0)) =
       [TObject
          [(''type'', TString ''SIGSEGV''),
           (''value'', TString ''Segfault''),
           (''mechanism'', TObject
              [(''type'', TString ''signalhandler''), (''synthetic'', TBool True),
               (''handled'', TBool False),
               (''meta'', TObject
                  [(''signal'', TObject
                      [(''name'', TString ''SIGSEGV''), (''number'', TInt32 11)])])]),
           (''stacktrace'', TObject
              [(''frames'', TList [TObject [(''instruction_addr'', TAddr 0x2000)],
                                   TObject [(''instruction_addr'', TAddr 0x1000)]])])]]
   \<and> (0 :: nat) < SIGNAL_COUNT_windows
   \<and> (0xC0000005 :: 32 word) = signum (SIGNAL_DEFINITIONS_windows ! 0)
   \<and> (0xC0000005 :: 32 word) \<noteq> EXCEPTION_BREAKPOINT
   \<and> (0xC0000005 :: 32 word) \<noteq> EXCEPTION_SINGLE_STEP
   \<and> captured_events (calls (snd (handle_exception [] two_frames
          \<lparr>ExceptionRecord = \<lparr>ExceptionCode = 0xC0000005\<rparr>, ContextRecord = 0\<rparr>
          started_windows_process))) = [VRef 0]
   \<and> sentry_value_get_by_key
         (cells (snd (handle_exception [] two_frames
            \<lparr>ExceptionRecord = \<lparr>ExceptionCode = 0xC0000005\<rparr>, ContextRecord = 0\<rparr>
            started_windows_process)))
         (VRef 0) ''level'' = VLevel SENTRY_LEVEL_FATAL
   \<and> map (read_value 4
             (cells (snd (handle_exception [] two_frames
                \<lparr>ExceptionRecord = \<lparr>ExceptionCode = 0xC0000005\<rparr>, ContextRecord = 0\<rparr>
                started_windows_process))))
        (event_exception_values
           (cells (snd (handle_exception [] two_frames
              \<lparr>ExceptionRecord = \<lparr>ExceptionCode = 0xC0000005\<rparr>, ContextRecord = 0\<rparr>
              started_windows_process)))
           (VRef 0)) =
       [TObject
          [(''type'', TString ''EXCEPTION_ACCESS_VIOLATION''),
           (''value'', TString ''AccessViolation''),
           (''mechanism'', TObject
              [(''type'', TString ''signalhandler''), (''synthetic'', TBool True),
               (''handled'', TBool False),
               (''meta'', TObject
                  [(''signal'', TObject
                      [(''name'', TString ''EXCEPTION_ACCESS_VIOLATION''),
                       (''number'', TInt32 0xC0000005)])])]),
           (''stacktrace'', TObject
              [(''frames'', TList [TObject [(''instruction_addr'', TAddr 0x2000)],
                                   TObject [(''instruction_addr'', TAddr 0x1000)]])])]]"
  using matching_fault_event_fields
          [where pc = linux_consts and i = 5 and dflt = "[]" and unwind = two_frames
             and uctx = "\<lparr>uc_signum = 11, uc_siginfo = 77, uc_user_context = 88\<rparr>"
             and s = started_unix_process and k = 0 and dflt' = "[]" and unwind' = two_frames
             and wctx = "\<lparr>exception_ptrs =
                   \<lparr>ExceptionRecord = \<lparr>ExceptionCode = 0xC0000005\<rparr>, ContextRecord = 0\<rparr>\<rparr>"
             and info = "\<lparr>ExceptionRecord = \<lparr>ExceptionCode = 0xC0000005\<rparr>, ContextRecord = 0\<rparr>"
             and w = started_windows_process]
  by (simp add: handle_signal_def started_unix_process_fields(4) started_windows_process_fields
      SIGNAL_COUNT_unix_def SIGNAL_COUNT_windows_def SIGNAL_DEFINITIONS_unix_def
      SIGNAL_DEFINITIONS_windows_def SIGNAL_DEF_def linux_consts_def exception_code_defs
      MAX_FRAMES_def two_frames_def frame_tree_def)




text \<open>
  The hook of the crashpad backend keeps the same order among the steps it has; it builds
  no event.
\<close>

lemma crashpad_handler_steps:
  "pipeline_steps (calls (sentry__crashpad_handler unix True returned s)) =
     pipeline_steps (calls s) @
     [Write_crash_marker, Enforce_disk_transport,
      End_current_session SENTRY_SESSION_STATUS_CRASHED,
      Transport_dump_queue returned (options_run s)]"
  by (simp add: sentry__crashpad_handler_def Let_def collaborator_defs log_call_def
      pipeline_steps_simps)

text \<open>
  C2.  In every run of \<^verbatim>\<open>handle_ucontext\<close>, on POSIX and on Windows, from every state:
  the steps of the capture pipeline that the run adds to the log are, in this order, the
  write of the crash marker, the swap of the transport for the disk transport, the
  transition of the session to crashed, the backtrace capture from which the event is
  built, the capture of that event, and, when a transport was set before the swap, the
  dump of that transport's queue to the run; exactly one event is captured.
\<close>

theorem capture_pipeline_order:
  "pipeline_steps (calls (handle_ucontext_unix pc dflt unwind uctx s)) =
     pipeline_steps (calls s) @
     [Write_crash_marker, Enforce_disk_transport,
      End_current_session SENTRY_SESSION_STATUS_CRASHED,
      Unwind_stack MAX_FRAMES, Capture_event (VRef (next_cell s))] @
     (case options_transport s of
        None \<Rightarrow> []
      | Some t \<Rightarrow> [Transport_dump_queue t (options_run s)])
   \<and> captured_events (calls (handle_ucontext_unix pc dflt unwind uctx s)) =
       captured_events (calls s) @ [VRef (next_cell s)]
   \<and> pipeline_steps (calls (handle_ucontext_windows dflt' unwind' uctx' w)) =
       pipeline_steps (calls w) @
       [Write_crash_marker, Enforce_disk_transport,
        End_current_session SENTRY_SESSION_STATUS_CRASHED,
        Unwind_stack MAX_FRAMES, Capture_event (VRef (next_cell w))] @
       (case options_transport w of
          None \<Rightarrow> []
        | Some t \<Rightarrow> [Transport_dump_queue t (options_run w)])
   \<and> captured_events (calls (handle_ucontext_windows dflt' unwind' uctx' w)) =
       captured_events (calls w) @ [VRef (next_cell w)]"
  unfolding handle_ucontext_unix_calls handle_ucontext_windows_calls
  by (cases "options_transport s"; cases "options_transport w")
     (simp_all add: pipeline_steps_simps)

section \<open>The claims about shutdown and about Windows\<close>

text \<open>
  Shutdown on Windows, in both backends, puts the recorded filter back exactly when the
  installed filter is still the backend's own, and leaves any other filter installed.
\<close>

lemma shutdown_inproc_backend_windows_filter:
  "top_level_filter (shutdown_inproc_backend_windows s) =
     (if top_level_filter s = Handle_exception then g_previous_handler s else top_level_filter s)"
  by (simp add: shutdown_inproc_backend_windows_def SetUnhandledExceptionFilter_def)

lemma sentry__crashpad_backend_shutdown_windows_filter:
  "top_level_filter (sentry__crashpad_backend_shutdown_windows s) =
     (if top_level_filter s = Crashpad_handler then g_previous_handler s else top_level_filter s)"
  by (simp add: sentry__crashpad_backend_shutdown_windows_def SetUnhandledExceptionFilter_def)

text \<open>
  C6 does not hold on POSIX.  \<^verbatim>\<open>shutdown_inproc_backend\<close> leaves the table of signal
  actions as it finds it, for every process: its only calls are \<^verbatim>\<open>sigaltstack\<close> and
  \<^verbatim>\<open>sentry_free\<close>.  In the process that had an application handler for \<^verbatim>\<open>SIGSEGV\<close>
  before startup, the backend's action is installed for \<^verbatim>\<open>SIGSEGV\<close> after startup and
  is still installed after shutdown; the application's handler is not put back.
\<close>

theorem shutdown_inproc_backend_unix_restores_nothing:
  "sigtable (shutdown_inproc_backend_unix pc s) = sigtable s
   \<and> calls (shutdown_inproc_backend_unix pc s) =
       calls s @ [Sigaltstack ((g_signal_stack s)\<lparr>ss_flags := SS_DISABLE pc\<rparr>),
                  Sentry_free (ss_sp (g_signal_stack s))]
   \<and> sigtable fresh_unix_process 11 = app_segv_action
   \<and> sigtable started_unix_process 11 = backend_action
   \<and> sigtable (shutdown_inproc_backend_unix linux_consts started_unix_process) 11 = backend_action
   \<and> backend_action \<noteq> app_segv_action"
  using started_unix_process_fields(2)
  by (simp add: shutdown_inproc_backend_unix_def Let_def log_call_def fresh_unix_process_def
      backend_action_def app_segv_action_def)

text \<open>
  C9.  \<^verbatim>\<open>handle_exception\<close> returns \<^verbatim>\<open>EXCEPTION_CONTINUE_SEARCH\<close> for every exception,
  from every state; for the breakpoint and the single-step code it returns it with the
  state unchanged, so without a single call of the pipeline; and both codes stand in the
  table of the Windows signal definitions.
\<close>

theorem handle_exception_continue_search:
  "fst (handle_exception dflt unwind info s) = EXCEPTION_CONTINUE_SEARCH
   \<and> handle_exception dflt unwind
        \<lparr>ExceptionRecord = \<lparr>ExceptionCode = EXCEPTION_BREAKPOINT\<rparr>, ContextRecord = ctx\<rparr> s =
       (EXCEPTION_CONTINUE_SEARCH, s)
   \<and> handle_exception dflt unwind
        \<lparr>ExceptionRecord = \<lparr>ExceptionCode = EXCEPTION_SINGLE_STEP\<rparr>, ContextRecord = ctx\<rparr> s =
       (EXCEPTION_CONTINUE_SEARCH, s)
   \<and> EXCEPTION_BREAKPOINT \<in> set (map signum SIGNAL_DEFINITIONS_windows)
   \<and> EXCEPTION_SINGLE_STEP \<in> set (map signum SIGNAL_DEFINITIONS_windows)"
  by (simp add: handle_exception_def Let_def SIGNAL_DEFINITIONS_windows_def SIGNAL_DEF_def)

text \<open>
  C10.  For a signal number that is in no slot of the POSIX table, \<^verbatim>\<open>handle_ucontext\<close>
  makes every call of the pipeline, captures one event, restores the recorded actions and
  leaves the signal-handler mode; for an exception code that is in no slot of the Windows
  table, \<^verbatim>\<open>handle_exception\<close> makes every call of the pipeline and captures one event.
  In both cases the one entry of the event's \<^verbatim>\<open>exception.values\<close> has type
  "UNKNOWN_SIGNAL" and value "UnknownSignal", and the signal metadata of its mechanism
  is the empty object.
\<close>

theorem unknown_code_is_captured:
  "(uc_signum uctx \<notin> set (map signum (SIGNAL_DEFINITIONS_unix pc)) \<longrightarrow>
      calls (handle_ucontext_unix pc dflt unwind uctx s) =
        calls s @
        [Page_allocator_enable, Enter_signal_handler,
         Write_crash_marker, Enforce_disk_transport,
         End_current_session SENTRY_SESSION_STATUS_CRASHED,
         Unwind_stack MAX_FRAMES, Capture_event (VRef (next_cell s))] @
        (case options_transport s of
           None \<Rightarrow> []
         | Some t \<Rightarrow> [Transport_dump_queue t (options_run s)]) @
        map (\<lambda>j. Sigaction (signum (SIGNAL_DEFINITIONS_unix pc ! j)) (g_previous_handlers s j))
          [0..<SIGNAL_COUNT_unix] @
        [Leave_signal_handler]
      \<and> map (read_value 4 (cells (handle_ucontext_unix pc dflt unwind uctx s)))
            (event_exception_values (cells (handle_ucontext_unix pc dflt unwind uctx s))
               (VRef (next_cell s))) =
          [TObject
             [(''type'', TString ''UNKNOWN_SIGNAL''),
              (''value'', TString ''UnknownSignal''),
              (''mechanism'', TObject
                 [(''type'', TString ''signalhandler''), (''synthetic'', TBool True),
                  (''handled'', TBool False),
                  (''meta'', TObject [(''signal'', TObject [])])]),
              (''stacktrace'', TObject
                 [(''frames'', TList (map frame_tree (rev (unwind uctx MAX_FRAMES))))])]])
   \<and> (ExceptionCode (ExceptionRecord info) \<notin> set (map signum SIGNAL_DEFINITIONS_windows) \<longrightarrow>
      calls (snd (handle_exception dflt' unwind' info w)) =
        calls w @
        [Write_crash_marker, Enforce_disk_transport,
         End_current_session SENTRY_SESSION_STATUS_CRASHED,
         Unwind_stack MAX_FRAMES, Capture_event (VRef (next_cell w))] @
        (case options_transport w of
           None \<Rightarrow> []
         | Some t \<Rightarrow> [Transport_dump_queue t (options_run w)])
      \<and> map (read_value 4 (cells (snd (handle_exception dflt' unwind' info w))))
            (event_exception_values (cells (snd (handle_exception dflt' unwind' info w)))
               (VRef (next_cell w))) =
          [TObject
             [(''type'', TString ''UNKNOWN_SIGNAL''),
              (''value'', TString ''UnknownSignal''),
              (''mechanism'', TObject
                 [(''type'', TString ''signalhandler''), (''synthetic'', TBool True),
                  (''handled'', TBool False),
                  (''meta'', TObject [(''signal'', TObject [])])]),
              (''stacktrace'', TObject
                 [(''frames'',
                   TList (map frame_tree
                            (rev (unwind' \<lparr>exception_ptrs = info\<rparr> MAX_FRAMES))))])]])"
proof (intro conjI impI)
  assume u: "uc_signum uctx \<notin> set (map signum (SIGNAL_DEFINITIONS_unix pc))"
  have slot: "find_sig_slot (SIGNAL_DEFINITIONS_unix pc) SIGNAL_COUNT_unix (uc_signum uctx) 0 None
                = None"
    by (rule find_sig_slot_no_match [OF refl _ u]) (simp add: length_SIGNAL_DEFINITIONS_unix)
  show "calls (handle_ucontext_unix pc dflt unwind uctx s) =
        calls s @
        [Page_allocator_enable, Enter_signal_handler,
         Write_crash_marker, Enforce_disk_transport,
         End_current_session SENTRY_SESSION_STATUS_CRASHED,
         Unwind_stack MAX_FRAMES, Capture_event (VRef (next_cell s))] @
        (case options_transport s of
           None \<Rightarrow> []
         | Some t \<Rightarrow> [Transport_dump_queue t (options_run s)]) @
        map (\<lambda>j. Sigaction (signum (SIGNAL_DEFINITIONS_unix pc ! j)) (g_previous_handlers s j))
          [0..<SIGNAL_COUNT_unix] @
        [Leave_signal_handler]"
    unfolding handle_ucontext_unix_calls chain_of_no_slot [OF u] by simp
  let ?s0 = "before_event (sentry__enter_signal_handler (sentry__page_allocator_enable s))"
  have n: "next_cell ?s0 = next_cell s"
    by (simp add: collaborator_defs)
  show "map (read_value 4 (cells (handle_ucontext_unix pc dflt unwind uctx s)))
            (event_exception_values (cells (handle_ucontext_unix pc dflt unwind uctx s))
               (VRef (next_cell s))) =
          [TObject
             [(''type'', TString ''UNKNOWN_SIGNAL''),
              (''value'', TString ''UnknownSignal''),
              (''mechanism'', TObject
                 [(''type'', TString ''signalhandler''), (''synthetic'', TBool True),
                  (''handled'', TBool False),
                  (''meta'', TObject [(''signal'', TObject [])])]),
              (''stacktrace'', TObject
                 [(''frames'', TList (map frame_tree (rev (unwind uctx MAX_FRAMES))))])]]"
    unfolding handle_ucontext_unix_cells slot
    using unknown_exc_tree [of dflt unwind uctx ?s0] unfolding n .
next
  assume u: "ExceptionCode (ExceptionRecord info) \<notin> set (map signum SIGNAL_DEFINITIONS_windows)"
  have "EXCEPTION_BREAKPOINT \<in> set (map signum SIGNAL_DEFINITIONS_windows)"
    and "EXCEPTION_SINGLE_STEP \<in> set (map signum SIGNAL_DEFINITIONS_windows)"
    by (simp_all add: SIGNAL_DEFINITIONS_windows_def SIGNAL_DEF_def)
  with u have ne: "ExceptionCode (ExceptionRecord info) \<noteq> EXCEPTION_BREAKPOINT"
    "ExceptionCode (ExceptionRecord info) \<noteq> EXCEPTION_SINGLE_STEP"
    by auto
  have slot: "find_sig_slot SIGNAL_DEFINITIONS_windows SIGNAL_COUNT_windows
                (ExceptionCode (ExceptionRecord info)) 0 None = None"
    by (rule find_sig_slot_no_match [OF refl _ u]) (simp add: length_SIGNAL_DEFINITIONS_windows)
  have e: "snd (handle_exception dflt' unwind' info w) =
             handle_ucontext_capture dflt' unwind' None \<lparr>exception_ptrs = info\<rparr> w"
    using ne by (simp add: handle_exception_def handle_ucontext_windows_def Let_def slot)
  show "calls (snd (handle_exception dflt' unwind' info w)) =
        calls w @
        [Write_crash_marker, Enforce_disk_transport,
         End_current_session SENTRY_SESSION_STATUS_CRASHED,
         Unwind_stack MAX_FRAMES, Capture_event (VRef (next_cell w))] @
        (case options_transport w of
           None \<Rightarrow> []
         | Some t \<Rightarrow> [Transport_dump_queue t (options_run w)])"
    unfolding e by (rule capture_facts(1))
  have n: "next_cell (before_event w) = next_cell w"
    by simp
  show "map (read_value 4 (cells (snd (handle_exception dflt' unwind' info w))))
            (event_exception_values (cells (snd (handle_exception dflt' unwind' info w)))
               (VRef (next_cell w))) =
          [TObject
             [(''type'', TString ''UNKNOWN_SIGNAL''),
              (''value'', TString ''UnknownSignal''),
              (''mechanism'', TObject
                 [(''type'', TString ''signalhandler''), (''synthetic'', TBool True),
                  (''handled'', TBool False),
                  (''meta'', TObject [(''signal'', TObject [])])]),
              (''stacktrace'', TObject
                 [(''frames'',
                   TList (map frame_tree
                            (rev (unwind' \<lparr>exception_ptrs = info\<rparr> MAX_FRAMES))))])]]"
    unfolding e capture_facts(2)
    using unknown_exc_tree [of dflt' unwind' "\<lparr>exception_ptrs = info\<rparr>" "before_event w"]
    unfolding n .
qed

text \<open>
  The theorem on Linux for \<^verbatim>\<open>SIGINT\<close> (number 2), and on Windows for the code of a C++
  exception, with a backtrace of two addresses.
\<close>

theorem unknown_code_is_captured_witness:
  "uc_signum \<lparr>uc_signum = 2, uc_siginfo = 0, uc_user_context = 0\<rparr> \<notin>
     set (map signum (SIGNAL_DEFINITIONS_unix linux_consts))
   \<and> calls (handle_ucontext_unix linux_consts [] two_frames
              \<lparr>uc_signum = 2, uc_siginfo = 0, uc_user_context = 0\<rparr> started_unix_process) =
       calls started_unix_process @
       [Page_allocator_enable, Enter_signal_handler, Write_crash_marker, Enforce_disk_transport,
        End_current_session SENTRY_SESSION_STATUS_CRASHED, Unwind_stack 128,
        Capture_event (VRef 0), Transport_dump_queue (Transport 1) 0,
        Sigaction 4 zero_sigaction, Sigaction 5 zero_sigaction, Sigaction 6 zero_sigaction,
        Sigaction 7 zero_sigaction, Sigaction 8 zero_sigaction, Sigaction 11 app_segv_action,
        Leave_signal_handler]
   \<and> map (read_value 4 (cells (handle_ucontext_unix linux_consts [] two_frames
              \<lparr>uc_signum = 2, uc_siginfo = 0, uc_user_context = 0\<rparr> started_unix_process)))
        (event_exception_values (cells (handle_ucontext_unix linux_consts [] two_frames
              \<lparr>uc_signum = 2, uc_siginfo = 0, uc_user_context = 0\<rparr> started_unix_process))
           (VRef 0)) =
       [TObject
          [(''type'', TString ''UNKNOWN_SIGNAL''),
           (''value'', TString ''UnknownSignal''),
           (''mechanism'', TObject
              [(''type'', TString ''signalhandler''), (''synthetic'', TBool True),
               (''handled'', TBool False),
               (''meta'', TObject [(''signal'', TObject [])])]),
           (''stacktrace'', TObject
              [(''frames'', TList [TObject [(''instruction_addr'', TAddr 0x2000)],
                                   TObject [(''instruction_addr'', TAddr 0x1000)]])])]]
   \<and> ExceptionCode (ExceptionRecord
         \<lparr>ExceptionRecord = \<lparr>ExceptionCode = 0xE06D7363\<rparr>, ContextRecord = 0\<rparr>) \<notin>
       set (map signum SIGNAL_DEFINITIONS_windows)
   \<and> calls (snd (handle_exception [] two_frames
                   \<lparr>ExceptionRecord = \<lparr>ExceptionCode = 0xE06D7363\<rparr>, ContextRecord = 0\<rparr>
                   started_windows_process)) =
       [Write_crash_marker, Enforce_disk_transport,
        End_current_session SENTRY_SESSION_STATUS_CRASHED, Unwind_stack 128,
        Capture_event (VRef 0), Transport_dump_queue (Transport 1) 0]
   \<and> map (read_value 4 (cells (snd (handle_exception [] two_frames
                   \<lparr>ExceptionRecord = \<lparr>ExceptionCode = 0xE06D7363\<rparr>, ContextRecord = 0\<rparr>
                   started_windows_process))))
        (event_exception_values (cells (snd (handle_exception [] two_frames
                   \<lparr>ExceptionRecord = \<lparr>ExceptionCode = 0xE06D7363\<rparr>, ContextRecord = 0\<rparr>
                   started_windows_process)))
           (VRef 0)) =
       [TObject
          [(''type'', TString ''UNKNOWN_SIGNAL''),
           (''value'', TString ''UnknownSignal''),
           (''mechanism'', TObject
              [(''type'', TString ''signalhandler''), (''synthetic'', TBool True),
               (''handled'', TBool False),
               (''meta'', TObject [(''signal'', TObject [])])]),
           (''stacktrace'', TObject
              [(''frames'', TList [TObject [(''instruction_addr'', TAddr 0x2000)],
                                   TObject [(''instruction_addr'', TAddr 0x1000)]])])]]"
  using unknown_code_is_captured
          [where pc = linux_consts and dflt = "[]" and unwind = two_frames
             and uctx = "\<lparr>uc_signum = 2, uc_siginfo = 0, uc_user_context = 0\<rparr>"
             and s = started_unix_process and dflt' = "[]" and unwind' = two_frames
             and info = "\<lparr>ExceptionRecord = \<lparr>ExceptionCode = 0xE06D7363\<rparr>, ContextRecord = 0\<rparr>"
             and w = started_windows_process]
        started_unix_process_fields(1) sigint_not_in_table cxx_exception_not_in_table
  by (simp add: started_unix_process_fields(4,6,7) started_windows_process_fields upt_six
      MAX_FRAMES_def SIGNAL_COUNT_unix_def two_frames_def frame_tree_def
      app_segv_action_def zero_sigaction_def)
   (simp add: SIGNAL_DEFINITIONS_unix_def SIGNAL_DEF_def linux_consts_def)

end
